theory Spec2Isabelle
  imports Main "HOL-Library.Multiset" "HOL-Library.Product_Lexorder"
begin

section \<open>Strings of the platform\<close>

text \<open>
  A JavaScript string is held as a \<^typ>\<open>string\<close>: one \<^typ>\<open>char\<close> per code unit, for the
  code units 0 to 255 (ASCII and Latin-1). The character classes and the case mapping
  below are the ones ECMAScript gives these code units.
\<close>

definition isSpace :: "char \<Rightarrow> bool" where
  \<comment> \<open>the class \<open>\s\<close>, also what \<open>String.prototype.trim\<close> strips: TAB, LF, VT, FF, CR, SPACE, NBSP\<close>
  "isSpace c \<longleftrightarrow> (of_char c :: nat) \<in> {9, 10, 11, 12, 13, 32, 160}"

definition isWord :: "char \<Rightarrow> bool" where
  \<comment> \<open>the class \<open>\w\<close>: \<open>[A-Za-z0-9_]\<close>\<close>
  "isWord c \<longleftrightarrow> (let n = (of_char c :: nat) in
     (65 \<le> n \<and> n \<le> 90) \<or> (97 \<le> n \<and> n \<le> 122) \<or> (48 \<le> n \<and> n \<le> 57) \<or> n = 95)"

definition isLowerWord :: "char \<Rightarrow> bool" where
  \<comment> \<open>\<open>[a-z0-9_]\<close>\<close>
  "isLowerWord c \<longleftrightarrow> (let n = (of_char c :: nat) in
     (97 \<le> n \<and> n \<le> 122) \<or> (48 \<le> n \<and> n \<le> 57) \<or> n = 95)"

definition toLowerChar :: "char \<Rightarrow> char" where
  \<comment> \<open>\<open>A\<close>..\<open>Z\<close> and the Latin-1 capitals 0xC0..0xDE (0xD7, the multiplication sign, apart)\<close>
  "toLowerChar c = (let n = (of_char c :: nat) in
     if (65 \<le> n \<and> n \<le> 90) \<or> (192 \<le> n \<and> n \<le> 222 \<and> n \<noteq> 215) then char_of (n + 32) else c)"

definition toLowerCase :: "string \<Rightarrow> string" where
  "toLowerCase s = map toLowerChar s"

definition trim :: "string \<Rightarrow> string" where
  "trim s = rev (dropWhile isSpace (rev (dropWhile isSpace s)))"

definition replaceNonWordSpace :: "string \<Rightarrow> string" where
  \<comment> \<open>\<open>.replace(/[^\w\s]/g, ' ')\<close>\<close>
  "replaceNonWordSpace s = map (\<lambda>c. if isWord c \<or> isSpace c then c else CHR '' '') s"

function collapseSpaces :: "string \<Rightarrow> string" where
  \<comment> \<open>\<open>.replace(/\s+/g, ' ')\<close>: every maximal run of white space becomes one space\<close>
  "collapseSpaces [] = []"
| "collapseSpaces (c # cs) =
     (if isSpace c then CHR '' '' # collapseSpaces (dropWhile isSpace cs)
      else c # collapseSpaces cs)"
  by pat_completeness auto
termination
  by (relation "measure length") (auto simp: length_dropWhile_le less_Suc_eq_le)

section \<open>The prompt normaliser (\<open>aiRequestSchema.methods.normalizePrompt\<close>)\<close>

definition normalizePrompt :: "string \<Rightarrow> string" where
  \<comment> \<open>the value \<open>normalized\<close> of \<open>normalizePrompt\<close>, as a function of \<open>this.prompt\<close>\<close>
  "normalizePrompt p = trim (collapseSpaces (replaceNonWordSpace (toLowerCase p)))"

definition canonical :: "string \<Rightarrow> bool" where
  \<comment> \<open>lower-case word characters separated by single spaces, no white space at either end\<close>
  "canonical s \<longleftrightarrow>
     list_all (\<lambda>c. isLowerWord c \<or> c = CHR '' '') s \<and>
     successively (\<lambda>a b. \<not> (a = CHR '' '' \<and> b = CHR '' '')) s \<and>
     (case s of [] \<Rightarrow> True | c # _ \<Rightarrow> c \<noteq> CHR '' '' \<and> last s \<noteq> CHR '' '')"


definition canonicalStored :: "string option \<Rightarrow> bool" where
  \<comment> \<open>a normalised prompt is there and is canonical\<close>
  "canonicalStored n \<longleftrightarrow> (case n of None \<Rightarrow> False | Some s \<Rightarrow> canonical s)"

section \<open>Errors\<close>

datatype error =
    ValidationError string  \<comment> \<open>Mongoose rejects a \<open>save\<close>\<close>
  | TypeError string        \<comment> \<open>a property of \<open>null\<close> is read\<close>
  | SyntaxError string      \<comment> \<open>\<open>new RegExp\<close> rejects a pattern\<close>
  | Error string            \<comment> \<open>any other thrown \<open>Error\<close>, with its message\<close>

fun message :: "error \<Rightarrow> string" where
  "message (ValidationError m) = m"
| "message (TypeError m) = m"
| "message (SyntaxError m) = m"
| "message (Error m) = m"

section \<open>The generative response: fence stripping and JSON\<close>

datatype json =
    JNull
  | JBool bool
  | JNumber string  \<comment> \<open>a number, kept as its literal\<close>
  | JString string
  | JArray "json list"
  | JObject "(string \<times> json) list"

definition dropNewline :: "string \<Rightarrow> string" where
  \<comment> \<open>the optional \<open>\n\<close> that ends both alternatives of the fence pattern\<close>
  "dropNewline s = (case s of [] \<Rightarrow> [] | c # cs \<Rightarrow> if c = CHR 0x0A then cs else s)"

function stripFences :: "string \<Rightarrow> string" where
  \<comment> \<open>\<open>text.replace(/```json\n?|```\n?/g, '')\<close>: leftmost matches, the first alternative first\<close>
  "stripFences [] = []"
| "stripFences (c # cs) =
     (if take 7 (c # cs) = ''```json'' then stripFences (dropNewline (drop 7 (c # cs)))
      else if take 3 (c # cs) = ''```'' then stripFences (dropNewline (drop 3 (c # cs)))
      else c # stripFences cs)"
  by pat_completeness auto
termination
proof (relation "measure length")
  have le: "length (dropNewline s) \<le> length s" for s
    by (simp add: dropNewline_def split: list.splits)
  fix c :: char and cs :: string
  show "(dropNewline (drop 7 (c # cs)), c # cs) \<in> measure length"
    using le [of "drop 7 (c # cs)"] by simp
  show "(dropNewline (drop 3 (c # cs)), c # cs) \<in> measure length"
    using le [of "drop 3 (c # cs)"] by simp
qed simp_all

definition cleanedText :: "string \<Rightarrow> string" where
  "cleanedText text = trim (stripFences text)"


subsection \<open>A reader for JSON text\<close>

text \<open>
  \<open>JSON.parse\<close> belongs to the platform. The pipeline below takes it from the runtime it
  runs on; \<open>readJSON\<close> is a reader for the JSON grammar with which the pipeline is run on
  concrete responses. A \<open>\u\<close> escape above \<open>00FF\<close> is outside the code units held here.
\<close>

definition jsonSpace :: "char \<Rightarrow> bool" where
  "jsonSpace c \<longleftrightarrow> (of_char c :: nat) \<in> {9, 10, 13, 32}"

definition isDigit :: "char \<Rightarrow> bool" where
  "isDigit c \<longleftrightarrow> (let n = (of_char c :: nat) in 48 \<le> n \<and> n \<le> 57)"

definition hexDigit :: "char \<Rightarrow> nat option" where
  "hexDigit c = (let n = (of_char c :: nat) in
     if 48 \<le> n \<and> n \<le> 57 then Some (n - 48)
     else if 65 \<le> n \<and> n \<le> 70 then Some (n - 55)
     else if 97 \<le> n \<and> n \<le> 102 then Some (n - 87)
     else None)"

definition hex4 :: "string \<Rightarrow> char option" where
  "hex4 s = (case map hexDigit s of
      [Some a, Some b, Some c, Some d] \<Rightarrow>
        (if a = 0 \<and> b = 0 then Some (char_of (16 * c + d)) else None)
    | _ \<Rightarrow> None)"

definition unescape :: "char \<Rightarrow> char option" where
  "unescape e =
     (if e = CHR 0x22 \<or> e = CHR 0x5C \<or> e = CHR ''/'' then Some e
      else if e = CHR ''b'' then Some (CHR 0x08)
      else if e = CHR ''f'' then Some (CHR 0x0C)
      else if e = CHR ''n'' then Some (CHR 0x0A)
      else if e = CHR ''r'' then Some (CHR 0x0D)
      else if e = CHR ''t'' then Some (CHR 0x09)
      else None)"

definition consChar :: "char \<Rightarrow> (string \<times> string) option \<Rightarrow> (string \<times> string) option" where
  "consChar c r = (case r of None \<Rightarrow> None | Some (s, rest) \<Rightarrow> Some (c # s, rest))"

fun readChars :: "string \<Rightarrow> (string \<times> string) option" where
  \<comment> \<open>the body of a string literal, after its opening quote: the string and the text left\<close>
  "readChars [] = None"
| "readChars (c # cs) =
     (if c = CHR 0x22 then Some ([], cs)
      else if c = CHR 0x5C then
        (case cs of
           [] \<Rightarrow> None
         | e # r \<Rightarrow>
             if e = CHR ''u'' then
               (case hex4 (take 4 r) of
                  None \<Rightarrow> None
                | Some ch \<Rightarrow> consChar ch (readChars (drop 4 r)))
             else
               (case unescape e of
                  None \<Rightarrow> None
                | Some ch \<Rightarrow> consChar ch (readChars r)))
      else if (of_char c :: nat) < 32 then None
      else consChar c (readChars cs))"

definition readDigits :: "string \<Rightarrow> (string \<times> string) option" where
  \<comment> \<open>one digit or more\<close>
  "readDigits s = (let ds = takeWhile isDigit s in
     if ds = [] then None else Some (ds, dropWhile isDigit s))"

definition readInt :: "string \<Rightarrow> (string \<times> string) option" where
  \<comment> \<open>\<open>0\<close>, or a digit from 1 to 9 and more digits\<close>
  "readInt s = (case s of
      [] \<Rightarrow> None
    | c # cs \<Rightarrow> if c = CHR ''0'' then Some ([c], cs) else readDigits s)"

definition readFrac :: "string \<Rightarrow> (string \<times> string) option" where
  "readFrac s = (case s of
      [] \<Rightarrow> Some ([], s)
    | c # cs \<Rightarrow>
        if c = CHR ''.'' then
          (case readDigits cs of None \<Rightarrow> None | Some (ds, r) \<Rightarrow> Some (c # ds, r))
        else Some ([], s))"

definition readExp :: "string \<Rightarrow> (string \<times> string) option" where
  "readExp s = (case s of
      [] \<Rightarrow> Some ([], s)
    | c # cs \<Rightarrow>
        if c = CHR ''e'' \<or> c = CHR ''E'' then
          (let (sg, r) = (case cs of
                            [] \<Rightarrow> ([], cs)
                          | d # ds \<Rightarrow> if d = CHR ''+'' \<or> d = CHR ''-'' then ([d], ds) else ([], cs))
           in case readDigits r of None \<Rightarrow> None | Some (ds, r') \<Rightarrow> Some (c # sg @ ds, r'))
        else Some ([], s))"

definition readNumber :: "string \<Rightarrow> (string \<times> string) option" where
  "readNumber s =
     (let (sg, r0) = (case s of
                        [] \<Rightarrow> ([], s)
                      | c # cs \<Rightarrow> if c = CHR ''-'' then ([c], cs) else ([], s))
      in case readInt r0 of
           None \<Rightarrow> None
         | Some (i, r1) \<Rightarrow>
             (case readFrac r1 of
                None \<Rightarrow> None
              | Some (f, r2) \<Rightarrow>
                  (case readExp r2 of
                     None \<Rightarrow> None
                   | Some (e, r3) \<Rightarrow> Some (sg @ i @ f @ e, r3))))"

fun readValue :: "nat \<Rightarrow> string \<Rightarrow> (json \<times> string) option"
  and readElements :: "nat \<Rightarrow> string \<Rightarrow> (json list \<times> string) option"
  and readMembers :: "nat \<Rightarrow> string \<Rightarrow> ((string \<times> json) list \<times> string) option"
where
  "readValue 0 s = None"
| "readValue (Suc n) s =
     (case dropWhile jsonSpace s of
        [] \<Rightarrow> None
      | c # cs \<Rightarrow>
          if c = CHR ''{'' then
            (case dropWhile jsonSpace cs of
               [] \<Rightarrow> None
             | d # ds \<Rightarrow>
                 if d = CHR ''}'' then Some (JObject [], ds)
                 else (case readMembers n cs of
                         None \<Rightarrow> None
                       | Some (kvs, r) \<Rightarrow> Some (JObject kvs, r)))
          else if c = CHR ''['' then
            (case dropWhile jsonSpace cs of
               [] \<Rightarrow> None
             | d # ds \<Rightarrow>
                 if d = CHR '']'' then Some (JArray [], ds)
                 else (case readElements n cs of
                         None \<Rightarrow> None
                       | Some (vs, r) \<Rightarrow> Some (JArray vs, r)))
          else if c = CHR 0x22 then
            (case readChars cs of None \<Rightarrow> None | Some (str, r) \<Rightarrow> Some (JString str, r))
          else if take 4 (c # cs) = ''true'' then Some (JBool True, drop 4 (c # cs))
          else if take 5 (c # cs) = ''false'' then Some (JBool False, drop 5 (c # cs))
          else if take 4 (c # cs) = ''null'' then Some (JNull, drop 4 (c # cs))
          else (case readNumber (c # cs) of
                  None \<Rightarrow> None
                | Some (lit, r) \<Rightarrow> Some (JNumber lit, r)))"
| "readElements 0 s = None"
| "readElements (Suc n) s =
     (case readValue n s of
        None \<Rightarrow> None
      | Some (v, r) \<Rightarrow>
          (case dropWhile jsonSpace r of
             [] \<Rightarrow> None
           | c # cs \<Rightarrow>
               if c = CHR '','' then
                 (case readElements n cs of
                    None \<Rightarrow> None
                  | Some (vs, r') \<Rightarrow> Some (v # vs, r'))
               else if c = CHR '']'' then Some ([v], cs)
               else None))"
| "readMembers 0 s = None"
| "readMembers (Suc n) s =
     (case dropWhile jsonSpace s of
        [] \<Rightarrow> None
      | q # qs \<Rightarrow>
          if q \<noteq> CHR 0x22 then None
          else (case readChars qs of
                  None \<Rightarrow> None
                | Some (k, r) \<Rightarrow>
                    (case dropWhile jsonSpace r of
                       [] \<Rightarrow> None
                     | c # cs \<Rightarrow>
                         if c \<noteq> CHR '':'' then None
                         else (case readValue n cs of
                                 None \<Rightarrow> None
                               | Some (v, r') \<Rightarrow>
                                   (case dropWhile jsonSpace r' of
                                      [] \<Rightarrow> None
                                    | e # es \<Rightarrow>
                                        if e = CHR '','' then
                                          (case readMembers n es of
                                             None \<Rightarrow> None
                                           | Some (kvs, r'') \<Rightarrow> Some ((k, v) # kvs, r''))
                                        else if e = CHR ''}'' then Some ([(k, v)], es)
                                        else None)))))"

definition readJSON :: "string \<Rightarrow> json option" where
  \<comment> \<open>one value and nothing after it; the fuel exceeds the number of calls on a text of this length\<close>
  "readJSON s = (case readValue (2 * length s + 2) s of
      None \<Rightarrow> None
    | Some (v, r) \<Rightarrow> if dropWhile jsonSpace r = [] then Some v else None)"


section \<open>The catalogue (\<open>models/Track.js\<close>) and the runtime\<close>

record track =
  track_id :: nat
  title :: string
  artist :: string
  genre :: string
  mood :: "string list"
  tags :: "string list"
  popularity :: int
  playCount :: int
  isActive :: bool

text \<open>
  What the controller takes from outside the repository: \<open>JSON.parse\<close> (\<open>None\<close> when it
  throws), Mongoose's cast of an array element that is neither a string nor \<open>null\<close> to the
  \<open>String\<close> of the schema (\<open>None\<close> for a \<open>CastError\<close>), the string that a filter value is compared as by the
  catalogue query, \<open>new RegExp(keyword, 'i')\<close> (\<open>Inl\<close> the message of its \<open>SyntaxError\<close>,
  \<open>Inr\<close> the test of a string against the pattern), and the order in which
  \<open>tracks.sort(() => Math.random() - 0.5)\<close> leaves the array.
\<close>

record runtime =
  JSON_parse :: "string \<Rightarrow> json option"
  castString :: "json \<Rightarrow> string option"
  queryValue :: "json \<Rightarrow> string option"
  RegExp_i :: "json \<Rightarrow> string + (string \<Rightarrow> bool)"
  random_sort :: "track list \<Rightarrow> track list"

definition permuting :: "(track list \<Rightarrow> track list) \<Rightarrow> bool" where
  \<comment> \<open>a sort, whatever its comparator answers, leaves the elements it was given\<close>
  "permuting f \<longleftrightarrow> (\<forall>xs. mset (f xs) = mset xs)"

section \<open>Prompt analysis (\<open>generatePlaylist\<close>, lines 61 to 79)\<close>

datatype generated =
    Returned string  \<comment> \<open>\<open>response.text()\<close>\<close>
  | Threw string     \<comment> \<open>the call rejects or throws an error with this message\<close>

record extraction =
  moods :: "json list"
  genres :: "json list"
  keywords' :: "json list"
  geminiData :: json

definition parseGemini :: "runtime \<Rightarrow> string \<Rightarrow> error + json" where
  "parseGemini rt text =
     (case JSON_parse rt (cleanedText text) of
        None \<Rightarrow> Inl (Error ''Failed to parse AI response'')
      | Some g \<Rightarrow> Inr g)"

fun property :: "json \<Rightarrow> string \<Rightarrow> error + json option" where
  \<comment> \<open>\<open>geminiData.k\<close> for \<open>k\<close> one of \<open>moods\<close>, \<open>genres\<close>, \<open>keywords\<close>, which only an object can
      have; \<open>None\<close> is \<open>undefined\<close>; of a key given twice \<open>JSON.parse\<close> keeps the last value\<close>
  "property JNull k =
     Inl (TypeError (''Cannot read properties of null (reading '' @ [CHR 0x27] @ k @ [CHR 0x27] @ '')''))"
| "property (JObject kvs) k = Inr (map_of (rev kvs) k)"
| "property (JBool b) k = Inr None"
| "property (JNumber n) k = Inr None"
| "property (JString s) k = Inr None"
| "property (JArray xs) k = Inr None"

definition arrayOrEmpty :: "json option \<Rightarrow> json list" where
  \<comment> \<open>\<open>Array.isArray(v) ? v : []\<close>\<close>
  "arrayOrEmpty v = (case v of Some (JArray xs) \<Rightarrow> xs | _ \<Rightarrow> [])"

definition validateExtracted :: "json \<Rightarrow> error + extraction" where
  "validateExtracted g =
     (case property g ''moods'' of
        Inl e \<Rightarrow> Inl e
      | Inr m \<Rightarrow>
          (case property g ''genres'' of
             Inl e \<Rightarrow> Inl e
           | Inr gs \<Rightarrow>
               (case property g ''keywords'' of
                  Inl e \<Rightarrow> Inl e
                | Inr ks \<Rightarrow>
                    Inr \<lparr>moods = arrayOrEmpty m, genres = arrayOrEmpty gs,
                         keywords' = arrayOrEmpty ks, geminiData = g\<rparr>)))"

definition analyze :: "runtime \<Rightarrow> generated \<Rightarrow> error + extraction" where
  "analyze rt gen =
     (case gen of
        Threw m \<Rightarrow> Inl (Error m)
      | Returned text \<Rightarrow>
          (case parseGemini rt text of Inl e \<Rightarrow> Inl e | Inr g \<Rightarrow> validateExtracted g))"

section \<open>Track matching (\<open>generatePlaylist\<close>, lines 88 to 136)\<close>

datatype clause =
    MoodIn "json list"
  | GenreIn "json list"
  | TagsIn "(string \<Rightarrow> bool) list"
  | TitleIn "(string \<Rightarrow> bool) list"
  | ArtistIn "(string \<Rightarrow> bool) list"

record searchCriteria =
  isActive_is :: bool
  or_clauses :: "clause list option"  \<comment> \<open>\<open>$or\<close>; \<open>None\<close> once it is deleted\<close>

fun keywordRegex :: "runtime \<Rightarrow> json list \<Rightarrow> error + (string \<Rightarrow> bool) list" where
  "keywordRegex rt [] = Inr []"
| "keywordRegex rt (k # ks) =
     (case RegExp_i rt k of
        Inl m \<Rightarrow> Inl (SyntaxError m)
      | Inr r \<Rightarrow> (case keywordRegex rt ks of Inl e \<Rightarrow> Inl e | Inr rs \<Rightarrow> Inr (r # rs)))"

definition finishCriteria :: "clause list \<Rightarrow> searchCriteria" where
  \<comment> \<open>\<open>if (searchCriteria.$or.length === 0) delete searchCriteria.$or\<close>\<close>
  "finishCriteria cl =
     \<lparr>isActive_is = True, or_clauses = (if length cl = 0 then None else Some cl)\<rparr>"

definition buildSearchCriteria :: "runtime \<Rightarrow> extraction \<Rightarrow> error + searchCriteria" where
  "buildSearchCriteria rt ex =
     (let or1 = (if length (moods ex) > 0 then [MoodIn (moods ex)] else []);
          or2 = or1 @ (if length (genres ex) > 0 then [GenreIn (genres ex)] else [])
      in if length (keywords' ex) > 0 then
           (case keywordRegex rt (keywords' ex) of
              Inl e \<Rightarrow> Inl e
            | Inr rs \<Rightarrow> Inr (finishCriteria (or2 @ [TagsIn rs, TitleIn rs, ArtistIn rs])))
         else Inr (finishCriteria or2))"

fun matchesClause :: "runtime \<Rightarrow> clause \<Rightarrow> track \<Rightarrow> bool" where
  "matchesClause rt (MoodIn vs) t = list_ex (\<lambda>m. Some m \<in> set (map (queryValue rt) vs)) (mood t)"
| "matchesClause rt (GenreIn vs) t = (Some (genre t) \<in> set (map (queryValue rt) vs))"
| "matchesClause rt (TagsIn rs) t = list_ex (\<lambda>tag. list_ex (\<lambda>r. r tag) rs) (tags t)"
| "matchesClause rt (TitleIn rs) t = list_ex (\<lambda>r. r (title t)) rs"
| "matchesClause rt (ArtistIn rs) t = list_ex (\<lambda>r. r (artist t)) rs"

definition matchesCriteria :: "runtime \<Rightarrow> searchCriteria \<Rightarrow> track \<Rightarrow> bool" where
  "matchesCriteria rt sc t \<longleftrightarrow>
     isActive t = isActive_is sc \<and>
     (case or_clauses sc of None \<Rightarrow> True | Some cl \<Rightarrow> list_ex (\<lambda>c. matchesClause rt c t) cl)"

definition Track_find :: "runtime \<Rightarrow> searchCriteria \<Rightarrow> track list \<Rightarrow> track list" where
  "Track_find rt sc catalog = filter (matchesCriteria rt sc) catalog"

definition byPopularityPlayCount :: "track list \<Rightarrow> track list" where
  \<comment> \<open>\<open>.sort({ popularity: -1, playCount: -1 })\<close>; equal keys keep the order of the collection\<close>
  "byPopularityPlayCount ts = sort_key (\<lambda>t. (- popularity t, - playCount t)) ts"

definition byPopularity :: "track list \<Rightarrow> track list" where
  \<comment> \<open>\<open>.sort({ popularity: -1 })\<close>\<close>
  "byPopularity ts = sort_key (\<lambda>t. - popularity t) ts"

definition popularityRule :: "track \<Rightarrow> track \<Rightarrow> bool" where
  \<comment> \<open>the first track is not to come after the second: more popular, or as popular and
      played no less\<close>
  "popularityRule a b \<longleftrightarrow>
     popularity b < popularity a \<or> (popularity b = popularity a \<and> playCount b \<le> playCount a)"

definition primaryTracks :: "runtime \<Rightarrow> searchCriteria \<Rightarrow> track list \<Rightarrow> track list" where
  "primaryTracks rt sc catalog = take 50 (byPopularityPlayCount (Track_find rt sc catalog))"

definition fallbackTracks :: "runtime \<Rightarrow> track list \<Rightarrow> nat \<Rightarrow> track list" where
  \<comment> \<open>\<open>Track.find({ isActive: true }).sort({ popularity: -1 }).limit(20 - tracks.length)\<close>\<close>
  "fallbackTracks rt catalog n =
     take (20 - n)
       (byPopularity (Track_find rt \<lparr>isActive_is = True, or_clauses = None\<rparr> catalog))"

definition candidatePool :: "runtime \<Rightarrow> searchCriteria \<Rightarrow> track list \<Rightarrow> track list" where
  "candidatePool rt sc catalog =
     (let tracks = primaryTracks rt sc catalog
      in if length tracks < 10 then tracks @ fallbackTracks rt catalog (length tracks)
         else tracks)"

definition matchTracks :: "runtime \<Rightarrow> track list \<Rightarrow> extraction \<Rightarrow> error + track list" where
  \<comment> \<open>\<open>shuffledTracks\<close>: the pool after the random sort, cut by \<open>.slice(0, 20)\<close>\<close>
  "matchTracks rt catalog ex =
     (case buildSearchCriteria rt ex of
        Inl e \<Rightarrow> Inl e
      | Inr sc \<Rightarrow> Inr (take 20 (random_sort rt (candidatePool rt sc catalog))))"


section \<open>The request record (\<open>aiRequestSchema\<close>)\<close>

definition moodVocabulary :: "string list" where
  "moodVocabulary =
     [''happy'', ''sad'', ''energetic'', ''calm'', ''romantic'', ''angry'', ''nostalgic'',
      ''peaceful'', ''uplifting'', ''melancholic'', ''relaxing'', ''motivational'']"

definition genreVocabulary :: "string list" where
  "genreVocabulary =
     [''pop'', ''rock'', ''jazz'', ''classical'', ''electronic'', ''hip-hop'', ''country'',
      ''folk'', ''blues'', ''reggae'', ''metal'', ''indie'', ''ambient'', ''world'']"

definition requestTypes :: "string list" where
  "requestTypes = [''playlist_generation'', ''track_recommendation'', ''mood_analysis'']"

definition statuses :: "string list" where
  "statuses = [''pending'', ''processing'', ''completed'', ''failed'']"

record satisfaction =
  rating :: int
  feedback :: string
  ratedAt :: int

text \<open>
  The document as the controller holds it. The last three fields are not paths of the
  schema: \<open>processingStartTime\<close> is the property that \<open>updateStatus\<close> puts on the object,
  \<open>promptModified\<close> is \<open>isModified('prompt')\<close>, and \<open>castError\<close> is the cast error that
  Mongoose keeps on a document once an assignment could not be cast. An element of the
  three arrays of strings is a string or \<open>null\<close> (\<open>None\<close>), which Mongoose keeps in such an
  array. Times are milliseconds, as \<open>Date.now()\<close> gives them.
\<close>

record AIRequest =
  user :: nat
  prompt :: string
  normalizedPrompt :: "string option"
  extractedKeywords :: "string option list"
  extractedMoods :: "string option list"
  extractedGenres :: "string option list"
  geminiResponse :: json
  generatedTracks :: "nat list"
  generatedPlaylist :: "nat option"
  requestType :: string
  status :: string
  processingTime :: int
  errorMessage :: string
  satisfaction :: "satisfaction option"
  isBookmarked :: bool
  usageCount :: int
  lastUsed :: int
  processingStartTime :: "int option"
  promptModified :: bool
  castError :: bool

definition newAIRequest :: "nat \<Rightarrow> string \<Rightarrow> string \<Rightarrow> int \<Rightarrow> AIRequest" where
  \<comment> \<open>a new document from \<open>{ user, prompt, requestType }\<close>: the defaults of the schema, the
      \<open>trim\<close> setter of \<open>prompt\<close>\<close>
  "newAIRequest uid p kind now =
     \<lparr>user = uid, prompt = trim p, normalizedPrompt = None, extractedKeywords = [],
      extractedMoods = [], extractedGenres = [], geminiResponse = JObject [],
      generatedTracks = [], generatedPlaylist = None, requestType = kind,
      status = ''pending'', processingTime = 0, errorMessage = [], satisfaction = None,
      isBookmarked = False, usageCount = 1, lastUsed = now, processingStartTime = None,
      promptModified = True, castError = False\<rparr>"

definition schemaValid :: "AIRequest \<Rightarrow> bool" where
  \<comment> \<open>the validators of the schema: \<open>required\<close>, \<open>maxlength\<close>, \<open>enum\<close>, \<open>min\<close>, \<open>max\<close>; the
      \<open>enum\<close> validator of Mongoose passes \<open>null\<close>\<close>
  "schemaValid d \<longleftrightarrow>
     \<not> castError d \<and>
     prompt d \<noteq> [] \<and> length (prompt d) \<le> 500 \<and>
     list_all (\<lambda>m. case m of None \<Rightarrow> True | Some s \<Rightarrow> s \<in> set moodVocabulary)
       (extractedMoods d) \<and>
     list_all (\<lambda>g. case g of None \<Rightarrow> True | Some s \<Rightarrow> s \<in> set genreVocabulary)
       (extractedGenres d) \<and>
     requestType d \<in> set requestTypes \<and>
     status d \<in> set statuses \<and>
     (case satisfaction d of
        None \<Rightarrow> True
      | Some s \<Rightarrow> 1 \<le> rating s \<and> rating s \<le> 5 \<and> length (feedback s) \<le> 1000) \<and>
     1 \<le> usageCount d"

definition normalizePrompt_method :: "AIRequest \<Rightarrow> AIRequest" where
  \<comment> \<open>\<open>this.normalizedPrompt = normalized\<close>, through the \<open>trim\<close> setter of that path\<close>
  "normalizePrompt_method d = d\<lparr>normalizedPrompt := Some (trim (normalizePrompt (prompt d)))\<rparr>"

definition preSave :: "AIRequest \<Rightarrow> AIRequest" where
  "preSave d = (if promptModified d then normalizePrompt_method d else d)"

definition save :: "AIRequest \<Rightarrow> AIRequest \<times> error option" where
  \<comment> \<open>validation, then the pre-save hook, then the write. The result is the document after
      the call and the error of a rejected save; a rejected save writes nothing.\<close>
  "save d =
     (if schemaValid d then ((preSave d)\<lparr>promptModified := False\<rparr>, None)
      else (d, Some (ValidationError ''AIRequest validation failed'')))"

definition create :: "nat \<Rightarrow> string \<Rightarrow> string \<Rightarrow> int \<Rightarrow> AIRequest \<times> error option" where
  "create uid p kind now = save (newAIRequest uid p kind now)"

definition truthy :: "int option \<Rightarrow> bool" where
  \<comment> \<open>\<open>if (this.processingStartTime)\<close>: neither \<open>undefined\<close> nor 0\<close>
  "truthy v = (case v of None \<Rightarrow> False | Some t \<Rightarrow> t \<noteq> 0)"

definition assignStatus :: "AIRequest \<Rightarrow> string \<Rightarrow> string \<Rightarrow> int \<Rightarrow> AIRequest" where
  \<comment> \<open>the assignments of \<open>updateStatus\<close>, before its \<open>this.save()\<close>\<close>
  "assignStatus d st msg now =
     (let d1 = (if st = ''processing'' \<and> status d = ''pending''
                then d\<lparr>processingStartTime := Some now\<rparr> else d);
          d2 = (if st = ''completed'' \<or> st = ''failed'' then
                  (if truthy (processingStartTime d1)
                   then d1\<lparr>processingTime := now - the (processingStartTime d1)\<rparr> else d1)
                else d1);
          d3 = d2\<lparr>status := st\<rparr>
      in if msg \<noteq> [] then d3\<lparr>errorMessage := msg\<rparr> else d3)"

definition updateStatus :: "AIRequest \<Rightarrow> string \<Rightarrow> string \<Rightarrow> int \<Rightarrow> AIRequest \<times> error option" where
  "updateStatus d st msg now = save (assignStatus d st msg now)"

definition markAsUsed :: "AIRequest \<Rightarrow> int \<Rightarrow> AIRequest \<times> error option" where
  "markAsUsed d now = save (d\<lparr>usageCount := usageCount d + 1, lastUsed := now\<rparr>)"

definition rateSatisfaction ::
  "AIRequest \<Rightarrow> int \<Rightarrow> string option \<Rightarrow> int \<Rightarrow> AIRequest \<times> error option" where
  \<comment> \<open>\<open>feedback = ''\<close> when the argument is \<open>undefined\<close>\<close>
  "rateSatisfaction d r fb now =
     save (d\<lparr>satisfaction :=
               Some \<lparr>rating = r, feedback = (case fb of None \<Rightarrow> [] | Some f \<Rightarrow> f),
                     ratedAt = now\<rparr>\<rparr>)"

definition persisted :: "AIRequest \<Rightarrow> AIRequest" where
  \<comment> \<open>what the store holds of a saved document: the paths of the schema\<close>
  "persisted d = d\<lparr>processingStartTime := None\<rparr>"

section \<open>The controller (\<open>controllers/aiController.js\<close>)\<close>

definition castElement :: "runtime \<Rightarrow> json \<Rightarrow> string option option" where
  \<comment> \<open>the cast of one element of an array of strings: \<open>None\<close> is a \<open>CastError\<close>, \<open>Some None\<close>
      is \<open>null\<close>, which the cast leaves as it is\<close>
  "castElement rt j =
     (case j of
        JNull \<Rightarrow> Some None
      | JString s \<Rightarrow> Some (Some s)
      | _ \<Rightarrow> map_option Some (castString rt j))"

definition castStrings ::
  "runtime \<Rightarrow> (string \<Rightarrow> string) \<Rightarrow> json list \<Rightarrow> string option list option" where
  \<comment> \<open>an array assigned to a path of strings: the cast of each element, then the setters,
      which leave \<open>null\<close> as it is\<close>
  "castStrings rt setter vs =
     map_option (map (map_option setter)) (those (map (castElement rt) vs))"

definition assignExtracted :: "runtime \<Rightarrow> extraction \<Rightarrow> AIRequest \<Rightarrow> AIRequest" where
  \<comment> \<open>lines 82 to 85; \<open>lowercase\<close> on moods and genres, \<open>lowercase\<close> and \<open>trim\<close> on keywords\<close>
  "assignExtracted rt ex d =
     (let d1 = (case castStrings rt toLowerCase (moods ex) of
                  None \<Rightarrow> d\<lparr>castError := True\<rparr>
                | Some ms \<Rightarrow> d\<lparr>extractedMoods := ms\<rparr>);
          d2 = (case castStrings rt toLowerCase (genres ex) of
                  None \<Rightarrow> d1\<lparr>castError := True\<rparr>
                | Some gs \<Rightarrow> d1\<lparr>extractedGenres := gs\<rparr>);
          d3 = (case castStrings rt (\<lambda>s. trim (toLowerCase s)) (keywords' ex) of
                  None \<Rightarrow> d2\<lparr>castError := True\<rparr>
                | Some ks \<Rightarrow> d2\<lparr>extractedKeywords := ks\<rparr>)
      in d3\<lparr>geminiResponse := geminiData ex\<rparr>)"

definition generateValidation :: "string \<Rightarrow> bool" where
  \<comment> \<open>\<open>body('prompt').trim().isLength({ min: 3, max: 500 })\<close>\<close>
  "generateValidation p \<longleftrightarrow> 3 \<le> length (trim p) \<and> length (trim p) \<le> 500"

definition ratingValidation :: "int \<Rightarrow> string option \<Rightarrow> bool" where
  \<comment> \<open>\<open>isInt({ min: 1, max: 5 })\<close> on the rating, \<open>optional().trim().isLength({ max: 1000 })\<close>
      on the feedback\<close>
  "ratingValidation r fb \<longleftrightarrow>
     1 \<le> r \<and> r \<le> 5 \<and> (case fb of None \<Rightarrow> True | Some f \<Rightarrow> length (trim f) \<le> 1000)"

record clock =
  atCreate :: int      \<comment> \<open>the default of \<open>lastUsed\<close>\<close>
  atProcessing :: int  \<comment> \<open>\<open>Date.now()\<close> in \<open>updateStatus('processing')\<close>\<close>
  atCompleted :: int   \<comment> \<open>\<open>Date.now()\<close> in \<open>updateStatus('completed')\<close>\<close>
  atFailed :: int      \<comment> \<open>\<open>Date.now()\<close> in \<open>updateStatus('failed', ...)\<close>\<close>

datatype response =
    BadRequest           \<comment> \<open>400, validation failed\<close>
  | NotFound             \<comment> \<open>404\<close>
  | Success "track list" \<comment> \<open>200 with \<open>shuffledTracks\<close>\<close>
  | Rated                \<comment> \<open>200, rating submitted\<close>
  | ServerError          \<comment> \<open>500, failed to generate\<close>
  | Next error           \<comment> \<open>\<open>next(error)\<close>\<close>

record outcome =
  response :: response
  stored :: "AIRequest option"  \<comment> \<open>the request as the store holds it when the handler ends\<close>

definition attempt ::
  "runtime \<Rightarrow> track list \<Rightarrow> clock \<Rightarrow> generated \<Rightarrow> AIRequest
     \<Rightarrow> (error \<times> AIRequest \<times> AIRequest) + (track list \<times> AIRequest)" where
  \<comment> \<open>the inner \<open>try\<close> block, for a request with \<open>savePlaylist\<close> false. \<open>Inl\<close>: what was
      thrown, the document and what the store holds then; \<open>Inr\<close>: the tracks and the
      document, saved.\<close>
  "attempt rt catalog ck gen d =
     (case analyze rt gen of
        Inl e \<Rightarrow> Inl (e, d, d)
      | Inr ex \<Rightarrow>
          (case save (assignExtracted rt ex d) of
             (d2, Some e) \<Rightarrow> Inl (e, d2, d)
           | (d2, None) \<Rightarrow>
               (case matchTracks rt catalog ex of
                  Inl e \<Rightarrow> Inl (e, d2, d2)
                | Inr ts \<Rightarrow>
                    (case updateStatus (d2\<lparr>generatedTracks := map track_id ts\<rparr>)
                            ''completed'' [] (atCompleted ck) of
                       (d3, Some e) \<Rightarrow> Inl (e, d3, d2)
                     | (d3, None) \<Rightarrow> Inr (ts, d3)))))"

definition generatePlaylist ::
  "runtime \<Rightarrow> track list \<Rightarrow> clock \<Rightarrow> nat \<Rightarrow> string \<Rightarrow> generated \<Rightarrow> outcome" where
  \<comment> \<open>the handler for the user \<open>uid\<close> and a body whose prompt is \<open>p\<close> and whose
      \<open>savePlaylist\<close> is false. The prompt reaches \<open>create\<close> trimmed by the sanitizer of the
      route and by \<open>prompt.trim()\<close>. An error that leaves the outer \<open>try\<close> goes to \<open>next\<close>.\<close>
  "generatePlaylist rt catalog ck uid p gen =
     (if \<not> generateValidation p then \<lparr>response = BadRequest, stored = None\<rparr>
      else
        (case create uid (trim (trim p)) ''playlist_generation'' (atCreate ck) of
           (d0, Some e) \<Rightarrow> \<lparr>response = Next e, stored = None\<rparr>
         | (d0, None) \<Rightarrow>
             (case updateStatus d0 ''processing'' [] (atProcessing ck) of
                (d1, Some e) \<Rightarrow> \<lparr>response = Next e, stored = Some (persisted d0)\<rparr>
              | (d1, None) \<Rightarrow>
                  (case attempt rt catalog ck gen d1 of
                     Inr (ts, d3) \<Rightarrow> \<lparr>response = Success ts, stored = Some (persisted d3)\<rparr>
                   | Inl (e, d, held) \<Rightarrow>
                       (case updateStatus d ''failed'' (message e) (atFailed ck) of
                          (d', Some e') \<Rightarrow> \<lparr>response = Next e', stored = Some (persisted held)\<rparr>
                        | (d', None) \<Rightarrow>
                            \<lparr>response = ServerError, stored = Some (persisted d')\<rparr>)))))"

definition ratePlaylist ::
  "(nat \<rightharpoonup> AIRequest) \<Rightarrow> nat \<Rightarrow> nat \<Rightarrow> int \<Rightarrow> string option \<Rightarrow> int
     \<Rightarrow> response \<times> (nat \<rightharpoonup> AIRequest)" where
  \<comment> \<open>the store as a map from request ids to documents\<close>
  "ratePlaylist db uid rid r fb now =
     (if \<not> ratingValidation r fb then (BadRequest, db)
      else
        (case db rid of
           None \<Rightarrow> (NotFound, db)
         | Some d \<Rightarrow>
             if user d \<noteq> uid then (NotFound, db)
             else
               (case rateSatisfaction d r (map_option trim fb) now of
                  (d', Some e) \<Rightarrow> (Next e, db)
                | (d', None) \<Rightarrow> (Rated, db(rid \<mapsto> persisted d')))))"


definition inVocabulary :: "AIRequest \<Rightarrow> bool" where
  \<comment> \<open>the moods and genres of a request are all values of the vocabularies of the schema\<close>
  "inVocabulary d \<longleftrightarrow>
     list_all (\<lambda>m. case m of None \<Rightarrow> False | Some s \<Rightarrow> s \<in> set moodVocabulary)
       (extractedMoods d) \<and>
     list_all (\<lambda>g. case g of None \<Rightarrow> False | Some s \<Rightarrow> s \<in> set genreVocabulary)
       (extractedGenres d)"

definition vocabularyOrNull :: "AIRequest \<Rightarrow> bool" where
  \<comment> \<open>each mood and each genre of a request is \<open>null\<close> or a value of the vocabulary\<close>
  "vocabularyOrNull d \<longleftrightarrow>
     list_all (\<lambda>m. case m of None \<Rightarrow> True | Some s \<Rightarrow> s \<in> set moodVocabulary)
       (extractedMoods d) \<and>
     list_all (\<lambda>g. case g of None \<Rightarrow> True | Some s \<Rightarrow> s \<in> set genreVocabulary)
       (extractedGenres d)"

section \<open>A runtime and data to run the model on\<close>

fun contains :: "string \<Rightarrow> string \<Rightarrow> bool" where
  "contains k [] = (k = [])"
| "contains k (c # cs) = (take (length k) (c # cs) = k \<or> contains k cs)"

definition plainRegExp :: "json \<Rightarrow> string + (string \<Rightarrow> bool)" where
  \<comment> \<open>a pattern of word characters and spaces, under the flag \<open>i\<close>, tests for the keyword
      in any case; other patterns are outside this runtime\<close>
  "plainRegExp j =
     (case j of
        JString k \<Rightarrow>
          if list_all (\<lambda>c. isWord c \<or> c = CHR '' '') k
          then Inr (\<lambda>s. contains (toLowerCase k) (toLowerCase s))
          else Inl ''Invalid regular expression''
      | _ \<Rightarrow> Inl ''Invalid regular expression'')"

definition plainRuntime :: runtime where
  \<comment> \<open>\<open>readJSON\<close>, no cast of an element that is neither a string nor \<open>null\<close>, filter values
      compared in lower case, and a random sort that happens to leave the order\<close>
  "plainRuntime =
     \<lparr>JSON_parse = readJSON,
      castString = (\<lambda>j. None),
      queryValue = (\<lambda>j. case j of JString s \<Rightarrow> Some (toLowerCase s) | _ \<Rightarrow> None),
      RegExp_i = plainRegExp,
      random_sort = (\<lambda>ts. ts)\<rparr>"

definition summerVibes :: track where
  "summerVibes =
     \<lparr>track_id = 1, title = ''Summer Vibes'', artist = ''Audio Library'', genre = ''pop'',
      mood = [''happy'', ''uplifting''], tags = [''summer'', ''upbeat'', ''positive''],
      popularity = 95, playCount = 0, isActive = True\<rparr>"

definition midnightJazz :: track where
  "midnightJazz =
     \<lparr>track_id = 2, title = ''Midnight Jazz'', artist = ''Audio Library'', genre = ''jazz'',
      mood = [''calm'', ''romantic''], tags = [''midnight'', ''smooth'', ''saxophone''],
      popularity = 78, playCount = 0, isActive = True\<rparr>"

definition noCriteria :: extraction where
  "noCriteria = \<lparr>moods = [], genres = [], keywords' = [], geminiData = JObject []\<rparr>"

definition happyCriteria :: extraction where
  "happyCriteria =
     \<lparr>moods = [JString ''happy''], genres = [], keywords' = [],
      geminiData = JObject [(''moods'', JArray [JString ''happy''])]\<rparr>"

definition brokenCriteria :: extraction where
  \<comment> \<open>a keyword that is no regular expression: its parenthesis is unmatched\<close>
  "brokenCriteria =
     \<lparr>moods = [], genres = [], keywords' = [JString ''rock)''],
      geminiData = JObject [(''keywords'', JArray [JString ''rock)''])]\<rparr>"

definition fencedResponse :: string where
  "fencedResponse =
     ''```json'' @ [CHR 0x0A] @
     ''{\"moods\":[\"happy\"],\"genres\":[],\"keywords\":[\"party\"]}'' @ [CHR 0x0A] @ ''```''"

definition sampleClock :: clock where
  "sampleClock = \<lparr>atCreate = 1000, atProcessing = 1001, atCompleted = 3001, atFailed = 3001\<rparr>"

definition completedRequest :: AIRequest where
  \<comment> \<open>a request created, set to processing and then to completed\<close>
  "completedRequest =
     fst (updateStatus
            (fst (updateStatus (fst (create 1 ''chill vibes'' ''playlist_generation'' 1000))
                    ''processing'' [] 1001))
            ''completed'' [] 3001)"

definition sampleOutcome :: outcome where
  \<comment> \<open>the handler run on the fenced response, over a catalogue of two tracks\<close>
  "sampleOutcome =
     generatePlaylist plainRuntime [summerVibes, midnightJazz] sampleClock 1
       ''Chill  Vibes!! '' (Returned fencedResponse)"

definition numbered :: "nat \<Rightarrow> track" where
  \<comment> \<open>an active track whose popularity is its number\<close>
  "numbered i =
     \<lparr>track_id = i, title = ''Track'', artist = ''Audio Library'', genre = ''pop'',
      mood = [], tags = [], popularity = int i, playCount = 0, isActive = True\<rparr>"

definition reversingRuntime :: runtime where
  \<comment> \<open>as \<open>plainRuntime\<close>, with a random sort that happens to reverse the order\<close>
  "reversingRuntime = plainRuntime\<lparr>random_sort := rev\<rparr>"

definition nullMoodOutcome :: outcome where
  \<comment> \<open>the handler run on a response whose one mood is \<open>null\<close>\<close>
  "nullMoodOutcome =
     generatePlaylist plainRuntime [summerVibes, midnightJazz] sampleClock 1
       ''chill vibes'' (Returned ''{\"moods\":[null]}'')"

section \<open>Properties of the string functions\<close>

lemma space_isSpace: "isSpace (CHR '' '')"
  by (simp add: isSpace_def)

lemma toLowerChar_word: "isWord (toLowerChar c) \<Longrightarrow> isLowerWord (toLowerChar c)"
  unfolding isWord_def isLowerWord_def toLowerChar_def Let_def
  by (auto split: if_splits)

lemma toLowerChar_fixed: "isLowerWord c \<or> c = CHR '' '' \<Longrightarrow> toLowerChar c = c"
  unfolding isLowerWord_def toLowerChar_def Let_def by auto

lemma lowerWord_not_space: "isLowerWord c \<Longrightarrow> \<not> isSpace c"
  unfolding isLowerWord_def isSpace_def Let_def by auto

lemma lowerWord_isWord: "isLowerWord c \<Longrightarrow> isWord c"
  unfolding isLowerWord_def isWord_def Let_def by auto

lemma collapse_chars:
  "c \<in> set (collapseSpaces s) \<Longrightarrow> c = CHR '' '' \<or> (c \<in> set s \<and> \<not> isSpace c)"
  by (induction s rule: collapseSpaces.induct) (auto split: if_splits dest: set_dropWhileD)

lemma collapse_single:
  "successively (\<lambda>a b. \<not> (a = CHR '' '' \<and> b = CHR '' '')) (collapseSpaces s)"
proof (induction s rule: collapseSpaces.induct)
  case 1
  then show ?case by simp
next
  case (2 c cs)
  show ?case
  proof (cases "isSpace c")
    case True
    let ?r = "dropWhile isSpace cs"
    have r: "?r = [] \<or> \<not> isSpace (hd ?r)" using hd_dropWhile by blast
    have "collapseSpaces ?r = [] \<or> hd (collapseSpaces ?r) \<noteq> CHR '' ''"
    proof (cases ?r)
      case Nil
      show ?thesis unfolding Nil by simp
    next
      case (Cons a as)
      with r have "\<not> isSpace a" by simp
      then have "collapseSpaces (a # as) = a # collapseSpaces as" and "a \<noteq> CHR '' ''"
        using space_isSpace by auto
      with Cons show ?thesis by simp
    qed
    with 2 True show ?thesis by (auto simp: successively_Cons)
  next
    case False
    then have "c \<noteq> CHR '' ''" using space_isSpace by auto
    with 2 False show ?thesis by (auto simp: successively_Cons)
  qed
qed

lemma collapse_fixed:
  "\<forall>c\<in>set s. isSpace c \<longrightarrow> c = CHR '' '' \<Longrightarrow>
   successively (\<lambda>a b. \<not> (a = CHR '' '' \<and> b = CHR '' '')) s \<Longrightarrow> collapseSpaces s = s"
proof (induction s rule: collapseSpaces.induct)
  case 1
  then show ?case by simp
next
  case (2 c cs)
  show ?case
  proof (cases "isSpace c")
    case True
    then have c: "c = CHR '' ''" using 2(3) by simp
    have "cs = [] \<or> \<not> isSpace (hd cs)"
      using 2(3,4) c by (cases cs) auto
    then have d: "dropWhile isSpace cs = cs" by (cases cs) auto
    have "collapseSpaces cs = cs"
      using 2(1)[OF True] 2(3,4) d by (auto simp: successively_Cons)
    with True c d show ?thesis by simp
  next
    case False
    with 2 show ?thesis by (auto simp: successively_Cons)
  qed
qed

lemma set_trim: "set (trim s) \<subseteq> set s"
  unfolding trim_def by (auto dest!: set_dropWhileD)

lemma successively_dropWhile: "successively P xs \<Longrightarrow> successively P (dropWhile Q xs)"
  by (induction xs) (auto simp: successively_Cons)

lemma successively_trim:
  assumes "successively (\<lambda>a b. \<not> (a = CHR '' '' \<and> b = CHR '' '')) s"
  shows "successively (\<lambda>a b. \<not> (a = CHR '' '' \<and> b = CHR '' '')) (trim s)"
proof -
  let ?P = "\<lambda>a b. \<not> (a = CHR '' '' \<and> b = CHR '' '')"
  have sym: "(\<lambda>x y. ?P y x) = ?P" by (intro ext) auto
  have "successively ?P (dropWhile isSpace s)"
    using assms by (rule successively_dropWhile)
  then have "successively ?P (rev (dropWhile isSpace s))"
    by (simp only: successively_rev sym)
  then have "successively ?P (dropWhile isSpace (rev (dropWhile isSpace s)))"
    by (rule successively_dropWhile)
  then show ?thesis unfolding trim_def by (simp only: successively_rev sym)
qed

lemma trim_hd:
  assumes "trim s \<noteq> []"
  shows "\<not> isSpace (hd (trim s))"
proof -
  let ?d = "dropWhile isSpace s"
  let ?e = "dropWhile isSpace (rev ?d)"
  have e: "?e \<noteq> []" using assms by (simp add: trim_def)
  have d: "?d \<noteq> []"
  proof
    assume "?d = []"
    then have "?e = []" by (simp only: rev.simps dropWhile.simps)
    with e show False by simp
  qed
  have "\<not> isSpace (hd ?d)" using d hd_dropWhile by blast
  moreover have "hd (trim s) = hd ?d"
  proof -
    obtain ys where "rev ?d = ys @ ?e"
      by (metis takeWhile_dropWhile_id)
    then have "?d = rev ?e @ rev ys" by (metis rev_append rev_rev_ident)
    then have "hd ?d = hd (rev ?e)" using e by (metis hd_append2 rev_is_Nil_conv)
    then show ?thesis by (simp add: trim_def)
  qed
  ultimately show ?thesis by simp
qed

lemma trim_last:
  assumes "trim s \<noteq> []"
  shows "\<not> isSpace (last (trim s))"
proof -
  let ?e = "dropWhile isSpace (rev (dropWhile isSpace s))"
  have e: "?e \<noteq> []" using assms by (simp add: trim_def)
  then have "\<not> isSpace (hd ?e)" using hd_dropWhile by blast
  moreover have "last (trim s) = hd ?e" using e by (simp add: trim_def last_rev)
  ultimately show ?thesis by simp
qed

lemma trim_fixed:
  assumes "s = [] \<or> (\<not> isSpace (hd s) \<and> \<not> isSpace (last s))"
  shows "trim s = s"
proof (cases s)
  case Nil
  then show ?thesis by (simp add: trim_def)
next
  case (Cons a as)
  with assms have h: "\<not> isSpace (hd s)" and l: "\<not> isSpace (last s)" by auto
  have 1: "dropWhile isSpace s = s" using h Cons by simp
  have "hd (rev s) = last s" using Cons by (simp add: hd_rev)
  then have 2: "dropWhile isSpace (rev s) = rev s" using l Cons
    by (metis dropWhile_eq_self_iff)
  show ?thesis by (simp add: trim_def 1 2)
qed

lemma trim_idem: "trim (trim s) = trim s"
  using trim_fixed [of "trim s"] trim_hd [of s] trim_last [of s] by blast

section \<open>The normalised prompt\<close>

lemma replaced_chars:
  "c \<in> set (replaceNonWordSpace (toLowerCase p)) \<Longrightarrow> isLowerWord c \<or> isSpace c"
  unfolding replaceNonWordSpace_def toLowerCase_def
  by (auto simp: space_isSpace dest: toLowerChar_word split: if_splits)

lemma normalizePrompt_chars:
  assumes "c \<in> set (normalizePrompt p)"
  shows "isLowerWord c \<or> c = CHR '' ''"
proof -
  from assms have "c \<in> set (collapseSpaces (replaceNonWordSpace (toLowerCase p)))"
    unfolding normalizePrompt_def using set_trim by blast
  then have "c = CHR '' '' \<or> (c \<in> set (replaceNonWordSpace (toLowerCase p)) \<and> \<not> isSpace c)"
    by (rule collapse_chars)
  then show ?thesis using replaced_chars by blast
qed

lemma normalizePrompt_canonical: "canonical (normalizePrompt p)"
proof -
  let ?n = "normalizePrompt p"
  have 1: "list_all (\<lambda>c. isLowerWord c \<or> c = CHR '' '') ?n"
    using normalizePrompt_chars by (simp add: list_all_iff)
  have 2: "successively (\<lambda>a b. \<not> (a = CHR '' '' \<and> b = CHR '' '')) ?n"
    unfolding normalizePrompt_def by (rule successively_trim) (rule collapse_single)
  have 3: "case ?n of [] \<Rightarrow> True | c # _ \<Rightarrow> c \<noteq> CHR '' '' \<and> last ?n \<noteq> CHR '' ''"
  proof (cases ?n)
    case Nil
    then show ?thesis by simp
  next
    case (Cons a as)
    then have ne: "?n \<noteq> []" by simp
    have "\<not> isSpace (hd ?n)" and "\<not> isSpace (last ?n)"
      using ne trim_hd trim_last unfolding normalizePrompt_def by blast+
    then have "hd ?n \<noteq> CHR '' ''" and "last ?n \<noteq> CHR '' ''"
      using space_isSpace by auto
    with Cons show ?thesis by simp
  qed
  show ?thesis unfolding canonical_def using 1 2 3 by blast
qed

lemma canonical_fixed:
  assumes "canonical s"
  shows "normalizePrompt s = s"
proof -
  from assms have chars: "\<forall>c\<in>set s. isLowerWord c \<or> c = CHR '' ''"
    and succ: "successively (\<lambda>a b. \<not> (a = CHR '' '' \<and> b = CHR '' '')) s"
    and ends: "case s of [] \<Rightarrow> True | c # _ \<Rightarrow> c \<noteq> CHR '' '' \<and> last s \<noteq> CHR '' ''"
    by (auto simp: canonical_def list_all_iff)
  have 1: "toLowerCase s = s"
    unfolding toLowerCase_def using chars toLowerChar_fixed by (simp add: map_idI)
  have 2: "replaceNonWordSpace s = s"
    unfolding replaceNonWordSpace_def using chars lowerWord_isWord space_isSpace
    by (intro map_idI) auto
  have sp: "\<forall>c\<in>set s. isSpace c \<longrightarrow> c = CHR '' ''"
    using chars lowerWord_not_space by blast
  have 3: "collapseSpaces s = s" using sp succ by (rule collapse_fixed)
  have 4: "trim s = s"
  proof (rule trim_fixed, cases s)
    case Nil
    then show "s = [] \<or> \<not> isSpace (hd s) \<and> \<not> isSpace (last s)" by simp
  next
    case (Cons a as)
    with ends have "hd s \<noteq> CHR '' ''" and "last s \<noteq> CHR '' ''" by auto
    moreover have "hd s \<in> set s" and "last s \<in> set s" using Cons by auto
    ultimately show "s = [] \<or> \<not> isSpace (hd s) \<and> \<not> isSpace (last s)"
      using sp by blast
  qed
  show ?thesis by (simp add: normalizePrompt_def 1 2 3 4)
qed

lemma trim_normalizePrompt: "trim (normalizePrompt p) = normalizePrompt p"
  by (simp add: normalizePrompt_def trim_idem)

text \<open>
  Claim C4. Normalising a prompt twice gives what normalising it once gives, for every
  string; and the prompt \<open>"Chill  Vibes!! "\<close> is normalised to \<open>"chill vibes"\<close>.
\<close>

theorem normalizePrompt_idempotent:
  "normalizePrompt (normalizePrompt s) = normalizePrompt s \<and>
   normalizePrompt ''Chill  Vibes!! '' = ''chill vibes''"
proof
  show "normalizePrompt (normalizePrompt s) = normalizePrompt s"
    using normalizePrompt_canonical by (rule canonical_fixed)
  show "normalizePrompt ''Chill  Vibes!! '' = ''chill vibes''"
    by code_simp
qed

section \<open>Saving a request\<close>

lemma save_accepts: "schemaValid d \<Longrightarrow> save d = ((preSave d)\<lparr>promptModified := False\<rparr>, None)"
  by (simp add: save_def)

lemma save_rejects:
  "\<not> schemaValid d \<Longrightarrow> save d = (d, Some (ValidationError ''AIRequest validation failed''))"
  by (simp add: save_def)

lemma snd_save: "snd (save d) = None \<longleftrightarrow> schemaValid d"
  by (simp add: save_def)

lemma status_save: "status (fst (save d)) = status d"
  by (simp add: save_def preSave_def normalizePrompt_method_def)

lemma satisfaction_save: "satisfaction (fst (save d)) = satisfaction d"
  by (simp add: save_def preSave_def normalizePrompt_method_def)

lemma schemaValid_status:
  "schemaValid d \<Longrightarrow> schemaValid (d\<lparr>status := st\<rparr>) \<longleftrightarrow> st \<in> set statuses"
  by (simp add: schemaValid_def)

lemma schemaValid_updates [simp]:
  "schemaValid (d\<lparr>processingStartTime := a\<rparr>) = schemaValid d"
  "schemaValid (d\<lparr>processingTime := b\<rparr>) = schemaValid d"
  "schemaValid (d\<lparr>errorMessage := c\<rparr>) = schemaValid d"
  "schemaValid (d\<lparr>generatedTracks := e\<rparr>) = schemaValid d"
  "schemaValid (d\<lparr>lastUsed := f\<rparr>) = schemaValid d"
  "schemaValid (d\<lparr>promptModified := g\<rparr>) = schemaValid d"
  "schemaValid (d\<lparr>normalizedPrompt := h\<rparr>) = schemaValid d"
  "schemaValid (d\<lparr>geminiResponse := i\<rparr>) = schemaValid d"
  "schemaValid (d\<lparr>extractedKeywords := j\<rparr>) = schemaValid d"
  by (simp_all add: schemaValid_def)

lemma schemaValid_preSave: "schemaValid (preSave d) = schemaValid d"
  by (simp add: preSave_def normalizePrompt_method_def)

lemma schemaValid_saved: "schemaValid d \<Longrightarrow> schemaValid (fst (save d))"
  by (simp add: save_def schemaValid_preSave)

lemma schemaValid_satisfaction:
  "schemaValid d \<Longrightarrow>
   schemaValid (d\<lparr>satisfaction := Some s\<rparr>) \<longleftrightarrow>
     1 \<le> rating s \<and> rating s \<le> 5 \<and> length (feedback s) \<le> 1000"
  by (simp add: schemaValid_def)

lemma schemaValid_rating:
  "schemaValid (d\<lparr>satisfaction := Some s\<rparr>) \<Longrightarrow> 1 \<le> rating s \<and> rating s \<le> 5"
  by (simp add: schemaValid_def)

lemma status_assignStatus: "status (assignStatus d st msg now) = st"
  by (simp add: assignStatus_def Let_def)

lemma schemaValid_assignStatus:
  "schemaValid (assignStatus d st msg now) \<longleftrightarrow> schemaValid (d\<lparr>status := st\<rparr>)"
  by (simp add: assignStatus_def Let_def schemaValid_def)

lemma updateStatus_accepts:
  assumes "schemaValid d" and "st \<in> set statuses" and "\<not> promptModified d"
  shows "updateStatus d st msg now = (assignStatus d st msg now, None)"
proof -
  let ?a = "assignStatus d st msg now"
  have "schemaValid ?a"
    using assms(1,2) by (simp add: schemaValid_assignStatus schemaValid_status)
  moreover have m: "\<not> promptModified ?a" using assms(3) by (simp add: assignStatus_def Let_def)
  ultimately have "save ?a = (?a\<lparr>promptModified := False\<rparr>, None)"
    by (simp add: save_accepts preSave_def)
  moreover have "?a\<lparr>promptModified := False\<rparr> = ?a"
    using m by simp
  ultimately show ?thesis by (simp add: updateStatus_def)
qed

lemma schemaValid_new:
  "generateValidation p \<Longrightarrow> kind \<in> set requestTypes \<Longrightarrow>
   schemaValid (newAIRequest uid p kind now)"
  by (auto simp: schemaValid_def newAIRequest_def generateValidation_def statuses_def)

lemma create_accepts:
  assumes "generateValidation p" and "kind \<in> set requestTypes"
  shows "create uid p kind now =
           ((newAIRequest uid p kind now)
              \<lparr>normalizedPrompt := Some (normalizePrompt (trim p)), promptModified := False\<rparr>,
            None)"
proof -
  have n: "trim (normalizePrompt (trim p)) = normalizePrompt (trim p)"
    by (rule trim_normalizePrompt)
  show ?thesis
    unfolding create_def
    by (simp add: save_accepts schemaValid_new [OF assms] preSave_def normalizePrompt_method_def)
       (simp add: newAIRequest_def n)
qed

lemma save_normalizes:
  "promptModified d \<Longrightarrow> schemaValid d \<Longrightarrow>
   normalizedPrompt (fst (save d)) = Some (normalizePrompt (prompt d))"
  by (simp add: save_def preSave_def normalizePrompt_method_def trim_normalizePrompt)

lemma save_keeps:
  "\<not> promptModified d \<Longrightarrow> normalizedPrompt (fst (save d)) = normalizedPrompt d"
  by (simp add: save_def preSave_def)

lemma save_canonical:
  assumes "promptModified d \<or> canonicalStored (normalizedPrompt d)" and "snd (save d) = None"
  shows "canonicalStored (normalizedPrompt (fst (save d)))"
proof (cases "promptModified d")
  case True
  moreover have "schemaValid d" using assms(2) by (simp add: snd_save)
  ultimately show ?thesis
    by (simp add: canonicalStored_def save_normalizes normalizePrompt_canonical)
next
  case False
  with assms(1) show ?thesis by (simp add: save_keeps)
qed

text \<open>
  Claim C10. A save of a request whose prompt was modified stores, as the normalised
  prompt, the normalisation of the prompt, which is canonical: lower-case word characters
  separated by single spaces, without white space at either end. So it is after
  \<open>create\<close>, and \<open>updateStatus\<close>, \<open>rateSatisfaction\<close> and \<open>markAsUsed\<close>, which save without
  touching the prompt, keep a canonical normalised prompt.
\<close>

theorem normalizedPrompt_canonical:
  "(promptModified d \<and> snd (save d) = None \<longrightarrow>
      normalizedPrompt (fst (save d)) = Some (normalizePrompt (prompt d)) \<and>
      canonical (normalizePrompt (prompt d))) \<and>
   (snd (create uid p kind t0) = None \<longrightarrow>
      canonicalStored (normalizedPrompt (fst (create uid p kind t0)))) \<and>
   (canonicalStored (normalizedPrompt d') \<and> \<not> promptModified d' \<longrightarrow>
      (snd (updateStatus d' st msg now) = None \<longrightarrow>
         canonicalStored (normalizedPrompt (fst (updateStatus d' st msg now)))) \<and>
      (snd (rateSatisfaction d' r fb now) = None \<longrightarrow>
         canonicalStored (normalizedPrompt (fst (rateSatisfaction d' r fb now)))) \<and>
      (snd (markAsUsed d' now) = None \<longrightarrow>
         canonicalStored (normalizedPrompt (fst (markAsUsed d' now)))))"
proof (intro conjI impI)
  assume "promptModified d \<and> snd (save d) = None"
  then show "normalizedPrompt (fst (save d)) = Some (normalizePrompt (prompt d))"
    by (simp add: save_normalizes snd_save)
  show "canonical (normalizePrompt (prompt d))" by (rule normalizePrompt_canonical)
next
  assume "snd (create uid p kind t0) = None"
  then show "canonicalStored (normalizedPrompt (fst (create uid p kind t0)))"
    unfolding create_def by (intro save_canonical) (simp_all add: newAIRequest_def)
next
  assume a: "canonicalStored (normalizedPrompt d') \<and> \<not> promptModified d'"
  have k: "canonicalStored (normalizedPrompt (assignStatus d' st msg now))"
    using a by (simp add: assignStatus_def Let_def)
  { assume "snd (updateStatus d' st msg now) = None"
    then show "canonicalStored (normalizedPrompt (fst (updateStatus d' st msg now)))"
      unfolding updateStatus_def using k by (intro save_canonical) simp_all }
  { assume "snd (rateSatisfaction d' r fb now) = None"
    then show "canonicalStored (normalizedPrompt (fst (rateSatisfaction d' r fb now)))"
      unfolding rateSatisfaction_def using a by (intro save_canonical) simp_all }
  { assume "snd (markAsUsed d' now) = None"
    then show "canonicalStored (normalizedPrompt (fst (markAsUsed d' now)))"
      unfolding markAsUsed_def using a by (intro save_canonical) simp_all }
qed

theorem normalizedPrompt_canonical_witness:
  "promptModified (newAIRequest 1 ''Chill  Vibes!! '' ''playlist_generation'' 1000) \<and>
   snd (save (newAIRequest 1 ''Chill  Vibes!! '' ''playlist_generation'' 1000)) = None \<and>
   normalizedPrompt (fst (save (newAIRequest 1 ''Chill  Vibes!! '' ''playlist_generation'' 1000)))
     = Some ''chill vibes'' \<and>
   canonical ''chill vibes'' \<and>
   snd (create 1 ''Chill  Vibes!! '' ''playlist_generation'' 1000) = None \<and>
   canonicalStored (normalizedPrompt (fst (create 1 ''Chill  Vibes!! '' ''playlist_generation'' 1000))) \<and>
   canonicalStored (normalizedPrompt completedRequest) \<and> \<not> promptModified completedRequest \<and>
   snd (updateStatus completedRequest ''failed'' ''late'' 4000) = None \<and>
   canonicalStored (normalizedPrompt (fst (updateStatus completedRequest ''failed'' ''late'' 4000))) \<and>
   snd (rateSatisfaction completedRequest 4 None 4000) = None \<and>
   canonicalStored (normalizedPrompt (fst (rateSatisfaction completedRequest 4 None 4000))) \<and>
   snd (markAsUsed completedRequest 4000) = None \<and>
   canonicalStored (normalizedPrompt (fst (markAsUsed completedRequest 4000)))"
proof -
  let ?d = "newAIRequest 1 ''Chill  Vibes!! '' ''playlist_generation'' 1000"
  have h1: "promptModified ?d \<and> snd (save ?d) = None" by code_simp
  have h2: "snd (create 1 ''Chill  Vibes!! '' ''playlist_generation'' 1000) = None" by code_simp
  have h3: "canonicalStored (normalizedPrompt completedRequest) \<and> \<not> promptModified completedRequest"
    by code_simp
  have h4: "snd (updateStatus completedRequest ''failed'' ''late'' 4000) = None" by code_simp
  have h5: "snd (rateSatisfaction completedRequest 4 None 4000) = None" by code_simp
  have h6: "snd (markAsUsed completedRequest 4000) = None" by code_simp
  have n: "normalizePrompt (prompt ?d) = ''chill vibes''" by code_simp
  show ?thesis
    using normalizedPrompt_canonical [where d = ?d and uid = 1 and p = "''Chill  Vibes!! ''"
        and kind = "''playlist_generation''" and ?t0.0 = 1000 and d' = completedRequest
        and st = "''failed''" and msg = "''late''" and now = 4000 and r = 4 and fb = None]
      h1 h2 h3 h4 h5 h6 n
    by simp
qed

section \<open>The lifecycle of a request\<close>

text \<open>
  Claim C1, as the code has it. \<open>updateStatus\<close> checks no transition: on a valid request
  whose status is \<open>completed\<close> or \<open>failed\<close> it succeeds for each of the four states as
  target and leaves the request in the target state. It fails only when the target is not
  one of the four states, and then with the \<open>ValidationError\<close> of the rejected save.
\<close>

theorem updateStatus_from_terminal:
  assumes "schemaValid d" and "status d = ''completed'' \<or> status d = ''failed''"
  shows "(st \<in> set statuses \<longrightarrow>
            snd (updateStatus d st msg now) = None \<and>
            status (fst (updateStatus d st msg now)) = st) \<and>
         (st' \<notin> set statuses \<longrightarrow>
            (\<exists>m. snd (updateStatus d st' msg now) = Some (ValidationError m)))"
proof (intro conjI impI)
  assume st: "st \<in> set statuses"
  let ?a = "assignStatus d st msg now"
  have "schemaValid ?a"
    using assms(1) st by (simp add: schemaValid_assignStatus schemaValid_status)
  then have "snd (save ?a) = None" by (simp add: snd_save)
  then show "snd (updateStatus d st msg now) = None" by (simp add: updateStatus_def)
  show "status (fst (updateStatus d st msg now)) = st"
    by (simp add: updateStatus_def status_save status_assignStatus)
next
  assume st': "st' \<notin> set statuses"
  let ?a = "assignStatus d st' msg now"
  have "\<not> schemaValid ?a"
    using assms(1) st' by (simp add: schemaValid_assignStatus schemaValid_status)
  then have "save ?a = (?a, Some (ValidationError ''AIRequest validation failed''))"
    by (rule save_rejects)
  then show "\<exists>m. snd (updateStatus d st' msg now) = Some (ValidationError m)"
    by (simp add: updateStatus_def)
qed

theorem updateStatus_from_terminal_witness:
  "schemaValid completedRequest \<and> status completedRequest = ''completed'' \<and>
   ''pending'' \<in> set statuses \<and> ''archived'' \<notin> set statuses \<and>
   snd (updateStatus completedRequest ''pending'' [] 5000) = None \<and>
   status (fst (updateStatus completedRequest ''pending'' [] 5000)) = ''pending'' \<and>
   (\<exists>m. snd (updateStatus completedRequest ''archived'' [] 5000) = Some (ValidationError m))"
proof -
  have h1: "schemaValid completedRequest" by code_simp
  have h2: "status completedRequest = ''completed''" by code_simp
  have h3: "''pending'' \<in> set statuses" and h4: "''archived'' \<notin> set statuses"
    by (simp_all add: statuses_def)
  from h2 have h2': "status completedRequest = ''completed'' \<or> status completedRequest = ''failed''"
    by (rule disjI1)
  show ?thesis
    using updateStatus_from_terminal [OF h1 h2', where st = "''pending''" and st' = "''archived''"
        and msg = "[]" and now = 5000] h1 h2 h3 h4
    by blast
qed

text \<open>
  A request that was created, set to \<open>processing\<close> and then to \<open>completed\<close> is taken
  back to \<open>processing\<close> by \<open>updateStatus\<close>, without an error.
\<close>

theorem completed_back_to_processing:
  "status completedRequest = ''completed'' \<and>
   snd (updateStatus completedRequest ''processing'' [] 5000) = None \<and>
   status (fst (updateStatus completedRequest ''processing'' [] 5000)) = ''processing''"
  by code_simp

text \<open>
  Claim C3, as the code has it. For a prompt that passes the validation of the route,
  \<open>create\<close>, then \<open>updateStatus\<close> to \<open>processing\<close> at time \<open>t1\<close>, then \<open>updateStatus\<close> to
  \<open>completed\<close> at time \<open>t2\<close> all succeed, and the processing time is \<open>t2 - t1\<close> (0 when
  \<open>t1\<close> is 0, which the code reads as no start time). It is greater than 0 exactly when
  the clock has advanced between the two updates.
\<close>

theorem elapsed_is_difference:
  assumes "generateValidation p" and "kind \<in> set requestTypes"
  shows "let (d0, e0) = create uid p kind t0;
             (d1, e1) = updateStatus d0 ''processing'' [] t1;
             (d2, e2) = updateStatus d1 ''completed'' [] t2
         in e0 = None \<and> e1 = None \<and> e2 = None \<and> status d2 = ''completed'' \<and>
            processingTime d2 = (if t1 = 0 then 0 else t2 - t1) \<and>
            (0 < processingTime d2 \<longleftrightarrow> t1 \<noteq> 0 \<and> t1 < t2)"
proof -
  let ?n = "newAIRequest uid p kind t0"
  let ?d0 = "?n\<lparr>normalizedPrompt := Some (normalizePrompt (trim p)), promptModified := False\<rparr>"
  have c: "create uid p kind t0 = (?d0, None)"
    using assms by (rule create_accepts)
  have v0: "schemaValid ?d0" using schemaValid_new [OF assms] by simp
  let ?d1 = "assignStatus ?d0 ''processing'' [] t1"
  have d1: "?d1 = ?d0\<lparr>processingStartTime := Some t1, status := ''processing''\<rparr>"
    by (simp add: assignStatus_def Let_def newAIRequest_def)
  have u1: "updateStatus ?d0 ''processing'' [] t1 = (?d1, None)"
    using v0 by (intro updateStatus_accepts) (simp_all add: statuses_def)
  have v1: "schemaValid ?d1"
    using v0 by (simp add: schemaValid_assignStatus schemaValid_status statuses_def)
  have m1: "\<not> promptModified ?d1" by (simp add: d1)
  let ?d2 = "assignStatus ?d1 ''completed'' [] t2"
  have u2: "updateStatus ?d1 ''completed'' [] t2 = (?d2, None)"
    using v1 _ m1 by (rule updateStatus_accepts) (simp add: statuses_def)
  have p2: "processingTime ?d2 = (if t1 = 0 then 0 else t2 - t1)"
    by (simp add: assignStatus_def Let_def truthy_def newAIRequest_def)
  have s2: "status ?d2 = ''completed''" by (simp add: status_assignStatus)
  show ?thesis
    unfolding c u1 u2 Let_def prod.case using s2 p2 by auto
qed

theorem elapsed_is_difference_witness:
  "generateValidation ''chill vibes'' \<and> ''playlist_generation'' \<in> set requestTypes \<and>
   (let (d0, e0) = create 1 ''chill vibes'' ''playlist_generation'' 1000;
        (d1, e1) = updateStatus d0 ''processing'' [] 1001;
        (d2, e2) = updateStatus d1 ''completed'' [] 3001
    in e0 = None \<and> e1 = None \<and> e2 = None \<and> status d2 = ''completed'' \<and>
       processingTime d2 = (if (1001::int) = 0 then 0 else 3001 - 1001) \<and>
       (0 < processingTime d2 \<longleftrightarrow> (1001::int) \<noteq> 0 \<and> (1001::int) < 3001))"
proof -
  have h1: "generateValidation ''chill vibes''" by code_simp
  have h2: "''playlist_generation'' \<in> set requestTypes" by (simp add: requestTypes_def)
  show ?thesis
    using elapsed_is_difference [OF h1 h2, where uid = 1 and ?t0.0 = 1000 and ?t1.0 = 1001
        and ?t2.0 = 3001] h1 h2
    by (intro conjI)
qed

text \<open>
  When both updates read the same millisecond off the clock, the request is completed
  with a processing time of 0.
\<close>

theorem same_millisecond_elapsed_zero:
  "snd (updateStatus
          (fst (updateStatus (fst (create 1 ''chill vibes'' ''playlist_generation'' 1000))
                  ''processing'' [] 1001))
          ''completed'' [] 1001) = None \<and>
   status (fst (updateStatus
          (fst (updateStatus (fst (create 1 ''chill vibes'' ''playlist_generation'' 1000))
                  ''processing'' [] 1001))
          ''completed'' [] 1001)) = ''completed'' \<and>
   \<not> 0 < processingTime (fst (updateStatus
          (fst (updateStatus (fst (create 1 ''chill vibes'' ''playlist_generation'' 1000))
                  ''processing'' [] 1001))
          ''completed'' [] 1001))"
  by code_simp

text \<open>
  Claim C5. A rating below 1 or above 5 is refused: the route answers 400 and leaves the
  store as it was, and \<open>rateSatisfaction\<close> itself ends in the \<open>ValidationError\<close> of the
  rejected save. On a valid request, rating 5 and then rating 3 both succeed, and the
  request then holds the one feedback of the second call: rating 3, its comment and its time.
\<close>

theorem feedback_validated_and_overwritten:
  "(r < 1 \<or> 5 < r \<longrightarrow>
      (\<exists>m. snd (rateSatisfaction d r fb now) = Some (ValidationError m)) \<and>
      ratePlaylist db uid rid r fb now = (BadRequest, db)) \<and>
   (schemaValid d \<and> length f1 \<le> 1000 \<and> length f2 \<le> 1000 \<longrightarrow>
      (let (d1, e1) = rateSatisfaction d 5 (Some f1) t1;
           (d2, e2) = rateSatisfaction d1 3 (Some f2) t2
       in e1 = None \<and> e2 = None \<and>
          satisfaction d1 = Some \<lparr>rating = 5, feedback = f1, ratedAt = t1\<rparr> \<and>
          satisfaction d2 = Some \<lparr>rating = 3, feedback = f2, ratedAt = t2\<rparr>))"
proof (intro conjI impI)
  assume out: "r < 1 \<or> 5 < r"
  let ?s = "\<lparr>rating = r, feedback = (case fb of None \<Rightarrow> [] | Some f \<Rightarrow> f), ratedAt = now\<rparr>"
  have "\<not> schemaValid (d\<lparr>satisfaction := Some ?s\<rparr>)"
    using out schemaValid_rating [where d = d and s = ?s] by auto
  then show "\<exists>m. snd (rateSatisfaction d r fb now) = Some (ValidationError m)"
    by (simp add: rateSatisfaction_def save_rejects)
  show "ratePlaylist db uid rid r fb now = (BadRequest, db)"
    using out by (auto simp: ratePlaylist_def ratingValidation_def)
next
  assume a: "schemaValid d \<and> length f1 \<le> 1000 \<and> length f2 \<le> 1000"
  let ?s1 = "\<lparr>rating = 5, feedback = f1, ratedAt = t1\<rparr>"
  let ?s2 = "\<lparr>rating = 3, feedback = f2, ratedAt = t2\<rparr>"
  let ?r1 = "rateSatisfaction d 5 (Some f1) t1"
  have v1: "schemaValid (d\<lparr>satisfaction := Some ?s1\<rparr>)"
    using a by (simp add: schemaValid_satisfaction)
  have e1: "snd ?r1 = None" using v1 by (simp add: rateSatisfaction_def snd_save)
  have s1: "satisfaction (fst ?r1) = Some ?s1"
    by (simp add: rateSatisfaction_def satisfaction_save)
  have vd1: "schemaValid (fst ?r1)"
    using v1 by (simp add: rateSatisfaction_def schemaValid_saved)
  let ?r2 = "rateSatisfaction (fst ?r1) 3 (Some f2) t2"
  have v2: "schemaValid ((fst ?r1)\<lparr>satisfaction := Some ?s2\<rparr>)"
    using a vd1 by (simp add: schemaValid_satisfaction)
  have e2: "snd ?r2 = None" using v2 by (simp add: rateSatisfaction_def snd_save)
  have s2: "satisfaction (fst ?r2) = Some ?s2"
    by (simp add: rateSatisfaction_def satisfaction_save)
  show "let (d1, e1) = rateSatisfaction d 5 (Some f1) t1;
            (d2, e2) = rateSatisfaction d1 3 (Some f2) t2
        in e1 = None \<and> e2 = None \<and>
           satisfaction d1 = Some ?s1 \<and> satisfaction d2 = Some ?s2"
    using e1 s1 e2 s2 by (simp add: case_prod_beta Let_def)
qed

theorem feedback_validated_and_overwritten_witness:
  "((6::int) < 1 \<or> (5::int) < 6) \<and>
   (\<exists>m. snd (rateSatisfaction completedRequest 6 (Some ''ok'') 4000) = Some (ValidationError m)) \<and>
   ratePlaylist [7 \<mapsto> completedRequest] 1 7 6 (Some ''ok'') 4000
     = (BadRequest, [7 \<mapsto> completedRequest]) \<and>
   schemaValid completedRequest \<and> length ''ok'' \<le> 1000 \<and> length ''better'' \<le> 1000 \<and>
   (let (d1, e1) = rateSatisfaction completedRequest 5 (Some ''ok'') 4000;
        (d2, e2) = rateSatisfaction d1 3 (Some ''better'') 5000
    in e1 = None \<and> e2 = None \<and>
       satisfaction d1 = Some \<lparr>rating = 5, feedback = ''ok'', ratedAt = 4000\<rparr> \<and>
       satisfaction d2 = Some \<lparr>rating = 3, feedback = ''better'', ratedAt = 5000\<rparr>)"
proof -
  have h1: "(6::int) < 1 \<or> (5::int) < 6" by simp
  have h2: "schemaValid completedRequest \<and> length ''ok'' \<le> 1000 \<and> length ''better'' \<le> 1000"
    by code_simp
  show ?thesis
    using feedback_validated_and_overwritten [where r = 6 and d = completedRequest
        and fb = "Some ''ok''" and now = 4000 and db = "[7 \<mapsto> completedRequest]" and uid = 1
        and rid = 7 and ?f1.0 = "''ok''" and ?f2.0 = "''better''" and ?t1.0 = 4000
        and ?t2.0 = 5000] h1 h2
    by blast
qed

section \<open>Prompt analysis\<close>

lemma fenced_response_parsed:
  "cleanedText fencedResponse = ''{\"moods\":[\"happy\"],\"genres\":[],\"keywords\":[\"party\"]}'' \<and>
   analyze plainRuntime (Returned fencedResponse) =
     Inr \<lparr>moods = [JString ''happy''], genres = [], keywords' = [JString ''party''],
          geminiData = JObject [(''moods'', JArray [JString ''happy'']), (''genres'', JArray []),
                               (''keywords'', JArray [JString ''party''])]\<rparr>"
  by code_simp

lemma property_not_null: "g \<noteq> JNull \<Longrightarrow> \<exists>v. property g k = Inr v"
  by (cases g) simp_all

lemma fields_coerced:
  assumes "g \<noteq> JNull"
  shows "\<exists>ex. validateExtracted g = Inr ex \<and>
     moods ex = (case property g ''moods'' of Inr (Some (JArray xs)) \<Rightarrow> xs | _ \<Rightarrow> []) \<and>
     genres ex = (case property g ''genres'' of Inr (Some (JArray xs)) \<Rightarrow> xs | _ \<Rightarrow> []) \<and>
     keywords' ex = (case property g ''keywords'' of Inr (Some (JArray xs)) \<Rightarrow> xs | _ \<Rightarrow> [])"
proof -
  obtain m gs ks where "property g ''moods'' = Inr m" "property g ''genres'' = Inr gs"
    "property g ''keywords'' = Inr ks"
    using property_not_null [OF assms] by metis
  then show ?thesis
    by (simp add: validateExtracted_def arrayOrEmpty_def split: option.splits json.splits)
qed

lemma null_payload_throws:
  "JSON_parse rt (cleanedText text) = Some JNull \<Longrightarrow>
   \<exists>m. analyze rt (Returned text) = Inl (TypeError m)"
  by (simp add: analyze_def parseGemini_def validateExtracted_def)

text \<open>
  Claim C9 at the response \<open>null\<close>. The text is valid JSON and parses to \<open>null\<close>; reading
  \<open>geminiData.moods\<close> then throws a \<open>TypeError\<close>, so no field is coerced to the empty
  sequence: the analysis fails and the request is stored as failed. (The fenced response
  of the claim is parsed as the claim says, and the fields of every payload other than
  \<open>null\<close> are coerced as it says: \<open>fenced_response_parsed\<close>, \<open>fields_coerced\<close>.)
\<close>

theorem null_payload_not_coerced:
  "cleanedText ''null'' = ''null'' \<and> readJSON ''null'' = Some JNull \<and>
   analyze plainRuntime (Returned ''null'') =
     Inl (TypeError (''Cannot read properties of null (reading '' @ [CHR 0x27] @ ''moods'' @
                     [CHR 0x27] @ '')'')) \<and>
   response (generatePlaylist plainRuntime [summerVibes, midnightJazz] sampleClock 1
               ''chill vibes'' (Returned ''null'')) = ServerError \<and>
   map_option status
     (stored (generatePlaylist plainRuntime [summerVibes, midnightJazz] sampleClock 1
                ''chill vibes'' (Returned ''null''))) = Some ''failed''"
  by code_simp

section \<open>The handler and the stored request\<close>

lemma generateValidation_trim: "generateValidation (trim p) = generateValidation p"
  by (simp add: generateValidation_def trim_idem)

lemma processing_step:
  assumes "generateValidation p"
  shows "\<exists>d0 d1. create uid (trim (trim p)) ''playlist_generation'' t0 = (d0, None) \<and>
           updateStatus d0 ''processing'' [] t1 = (d1, None) \<and>
           schemaValid d1 \<and> \<not> promptModified d1 \<and> errorMessage d1 = [] \<and>
           status d1 = ''processing''"
proof -
  have g: "generateValidation (trim (trim p))" using assms by (simp add: generateValidation_trim)
  have k: "''playlist_generation'' \<in> set requestTypes" by (simp add: requestTypes_def)
  let ?d0 = "(newAIRequest uid (trim (trim p)) ''playlist_generation'' t0)
     \<lparr>normalizedPrompt := Some (normalizePrompt (trim (trim (trim p)))), promptModified := False\<rparr>"
  have c: "create uid (trim (trim p)) ''playlist_generation'' t0 = (?d0, None)"
    using create_accepts [OF g k] by simp
  have v0: "schemaValid ?d0" using schemaValid_new [OF g k] by simp
  have m0: "\<not> promptModified ?d0" by simp
  have s: "''processing'' \<in> set statuses" by (simp add: statuses_def)
  let ?d1 = "assignStatus ?d0 ''processing'' [] t1"
  have u: "updateStatus ?d0 ''processing'' [] t1 = (?d1, None)"
    using v0 s m0 by (rule updateStatus_accepts)
  have "schemaValid ?d1" using v0 s by (simp add: schemaValid_assignStatus schemaValid_status)
  moreover have "\<not> promptModified ?d1" by (simp add: assignStatus_def Let_def)
  moreover have "errorMessage ?d1 = []" by (simp add: assignStatus_def Let_def newAIRequest_def)
  moreover have "status ?d1 = ''processing''" by (simp add: status_assignStatus)
  ultimately show ?thesis using c u by blast
qed

lemma failed_step:
  assumes "schemaValid d" and "\<not> promptModified d" and "errorMessage d = []"
  shows "\<exists>d'. updateStatus d ''failed'' msg now = (d', None) \<and> status d' = ''failed'' \<and>
              errorMessage d' = msg"
proof -
  have s: "''failed'' \<in> set statuses" by (simp add: statuses_def)
  let ?a = "assignStatus d ''failed'' msg now"
  have "updateStatus d ''failed'' msg now = (?a, None)"
    using assms(1) s assms(2) by (rule updateStatus_accepts)
  moreover have "status ?a = ''failed''" by (simp add: status_assignStatus)
  moreover have "errorMessage ?a = msg" using assms(3) by (simp add: assignStatus_def Let_def)
  ultimately show ?thesis by blast
qed

lemma analysis_failure_recorded:
  assumes "generateValidation p" and "analyze rt gen = Inl e"
  shows "\<exists>d. generatePlaylist rt catalog ck uid p gen =
                \<lparr>response = ServerError, stored = Some d\<rparr> \<and>
             status d = ''failed'' \<and> errorMessage d = message e"
proof -
  obtain d0 d1
    where c: "create uid (trim (trim p)) ''playlist_generation'' (atCreate ck) = (d0, None)"
    and u: "updateStatus d0 ''processing'' [] (atProcessing ck) = (d1, None)"
    and d1: "schemaValid d1" "\<not> promptModified d1" "errorMessage d1 = []"
    using processing_step [OF assms(1)] by blast
  have a: "attempt rt catalog ck gen d1 = Inl (e, d1, d1)"
    by (simp add: attempt_def assms(2))
  obtain d' where f: "updateStatus d1 ''failed'' (message e) (atFailed ck) = (d', None)"
    and d': "status d' = ''failed''" "errorMessage d' = message e"
    using failed_step [OF d1] by blast
  have "generatePlaylist rt catalog ck uid p gen =
          \<lparr>response = ServerError, stored = Some (persisted d')\<rparr>"
    by (simp add: generatePlaylist_def assms(1) c u a f)
  moreover have "status (persisted d') = ''failed''" "errorMessage (persisted d') = message e"
    using d' by (simp_all add: persisted_def)
  ultimately show ?thesis by blast
qed

text \<open>
  Claim C2, as the code has it. For a prompt that passes the validation of the route: when
  the generative call throws an error (a timeout that the client reports as an error is
  one), or returns text that \<open>JSON.parse\<close> rejects once the fences are stripped, the handler
  answers 500 and the stored request has status \<open>failed\<close>, never \<open>processing\<close>. Its error
  message is the message of the error: the one the call threw, empty or not, and
  \<open>Failed to parse AI response\<close> for text that does not parse.
\<close>

theorem external_failure_recorded:
  assumes "generateValidation p"
  shows "(\<exists>d. generatePlaylist rt catalog ck uid p (Threw m) =
               \<lparr>response = ServerError, stored = Some d\<rparr> \<and>
             status d = ''failed'' \<and> errorMessage d = m) \<and>
         (JSON_parse rt (cleanedText raw) = None \<longrightarrow>
            (\<exists>d. generatePlaylist rt catalog ck uid p (Returned raw) =
                  \<lparr>response = ServerError, stored = Some d\<rparr> \<and>
                status d = ''failed'' \<and> errorMessage d = ''Failed to parse AI response''))"
proof (intro conjI impI)
  have "analyze rt (Threw m) = Inl (Error m)" by (simp add: analyze_def)
  from analysis_failure_recorded [OF assms this]
  show "\<exists>d. generatePlaylist rt catalog ck uid p (Threw m) =
               \<lparr>response = ServerError, stored = Some d\<rparr> \<and>
             status d = ''failed'' \<and> errorMessage d = m" by simp
next
  assume "JSON_parse rt (cleanedText raw) = None"
  then have "analyze rt (Returned raw) = Inl (Error ''Failed to parse AI response'')"
    by (simp add: analyze_def parseGemini_def)
  from analysis_failure_recorded [OF assms this]
  show "\<exists>d. generatePlaylist rt catalog ck uid p (Returned raw) =
                  \<lparr>response = ServerError, stored = Some d\<rparr> \<and>
                status d = ''failed'' \<and> errorMessage d = ''Failed to parse AI response''" by simp
qed

theorem external_failure_recorded_witness:
  "generateValidation ''chill vibes'' \<and>
   JSON_parse plainRuntime (cleanedText ''not json'') = None \<and>
   (\<exists>d. generatePlaylist plainRuntime [summerVibes] sampleClock 1 ''chill vibes''
           (Threw ''deadline exceeded'') = \<lparr>response = ServerError, stored = Some d\<rparr> \<and>
        status d = ''failed'' \<and> errorMessage d = ''deadline exceeded'') \<and>
   (\<exists>d. generatePlaylist plainRuntime [summerVibes] sampleClock 1 ''chill vibes''
           (Returned ''not json'') = \<lparr>response = ServerError, stored = Some d\<rparr> \<and>
        status d = ''failed'' \<and> errorMessage d = ''Failed to parse AI response'')"
proof -
  have h1: "generateValidation ''chill vibes''" by code_simp
  have h2: "JSON_parse plainRuntime (cleanedText ''not json'') = None" by code_simp
  show ?thesis
    using external_failure_recorded [OF h1, where rt = plainRuntime and catalog = "[summerVibes]"
        and ck = sampleClock and uid = 1 and m = "''deadline exceeded''" and raw = "''not json''"]
      h1 h2
    by blast
qed

text \<open>
  When the call throws an error whose message is empty, the stored request is failed and
  its error message is empty.
\<close>

theorem empty_message_empty_reason:
  "map_option status
     (stored (generatePlaylist plainRuntime [summerVibes] sampleClock 1 ''chill vibes'' (Threw [])))
     = Some ''failed'' \<and>
   map_option errorMessage
     (stored (generatePlaylist plainRuntime [summerVibes] sampleClock 1 ''chill vibes'' (Threw [])))
     = Some []"
  by code_simp

lemma save_vocabularyOrNull:
  assumes "save x = (y, None)"
  shows "vocabularyOrNull y"
proof -
  have v: "schemaValid x" using assms snd_save [of x] by simp
  then have "y = (preSave x)\<lparr>promptModified := False\<rparr>" using assms by (simp add: save_accepts)
  then have "extractedMoods y = extractedMoods x" and "extractedGenres y = extractedGenres x"
    by (simp_all add: preSave_def normalizePrompt_method_def)
  moreover have
    "list_all (\<lambda>m. case m of None \<Rightarrow> True | Some s \<Rightarrow> s \<in> set moodVocabulary) (extractedMoods x)"
    and "list_all (\<lambda>g. case g of None \<Rightarrow> True | Some s \<Rightarrow> s \<in> set genreVocabulary) (extractedGenres x)"
    using v by (simp_all add: schemaValid_def)
  ultimately show ?thesis by (simp add: vocabularyOrNull_def)
qed

lemma updateStatus_vocabularyOrNull: "updateStatus x st msg now = (y, None) \<Longrightarrow> vocabularyOrNull y"
  unfolding updateStatus_def by (rule save_vocabularyOrNull)

lemma create_vocabularyOrNull: "create uid p kind now = (y, None) \<Longrightarrow> vocabularyOrNull y"
  unfolding create_def by (rule save_vocabularyOrNull)

lemma persisted_vocabularyOrNull: "vocabularyOrNull (persisted d) = vocabularyOrNull d"
  by (simp add: vocabularyOrNull_def persisted_def)

lemma attempt_thrown_vocabularyOrNull:
  assumes "vocabularyOrNull d" and "attempt rt catalog ck gen d = Inl (e, dd, held)"
  shows "vocabularyOrNull held"
proof (cases "analyze rt gen")
  case (Inl a)
  with assms show ?thesis by (auto simp: attempt_def)
next
  case (Inr ex)
  obtain d2 r where s: "save (assignExtracted rt ex d) = (d2, r)"
    by (cases "save (assignExtracted rt ex d)")
  show ?thesis
  proof (cases r)
    case (Some a)
    with assms Inr s show ?thesis by (simp add: attempt_def)
  next
    case None
    then have "vocabularyOrNull d2" using s save_vocabularyOrNull by blast
    with assms(2) Inr s None show ?thesis
      by (auto simp: attempt_def split: sum.splits prod.splits option.splits)
  qed
qed

lemma attempt_done_vocabularyOrNull:
  assumes "attempt rt catalog ck gen d = Inr (ts, d3)"
  shows "vocabularyOrNull d3"
  using assms
  by (auto simp: attempt_def split: sum.splits prod.splits option.splits
      dest: updateStatus_vocabularyOrNull)

lemma generatePlaylist_vocabularyOrNull:
  assumes "stored (generatePlaylist rt catalog ck uid p gen) = Some d'"
  shows "vocabularyOrNull d'"
proof (cases "generateValidation p")
  case False
  with assms show ?thesis by (simp add: generatePlaylist_def)
next
  case True
  obtain d0 r0 where c: "create uid (trim (trim p)) ''playlist_generation'' (atCreate ck) = (d0, r0)"
    by (cases "create uid (trim (trim p)) ''playlist_generation'' (atCreate ck)")
  show ?thesis
  proof (cases r0)
    case (Some a)
    with assms True c show ?thesis by (simp add: generatePlaylist_def)
  next
    case None
    with c have v0: "vocabularyOrNull d0" using create_vocabularyOrNull by blast
    obtain d1 r1 where u: "updateStatus d0 ''processing'' [] (atProcessing ck) = (d1, r1)"
      by (cases "updateStatus d0 ''processing'' [] (atProcessing ck)")
    show ?thesis
    proof (cases r1)
      case (Some a)
      with assms True c None u v0 show ?thesis
        by (auto simp: generatePlaylist_def persisted_vocabularyOrNull)
    next
      case N1: None
      with u have v1: "vocabularyOrNull d1" using updateStatus_vocabularyOrNull by blast
      show ?thesis
      proof (cases "attempt rt catalog ck gen d1")
        case (Inr b)
        then obtain ts d3 where b: "attempt rt catalog ck gen d1 = Inr (ts, d3)" by (cases b) auto
        then have "vocabularyOrNull d3" by (rule attempt_done_vocabularyOrNull)
        with assms True c None u N1 b show ?thesis
          by (auto simp: generatePlaylist_def persisted_vocabularyOrNull)
      next
        case (Inl a)
        then obtain e dd held where a: "attempt rt catalog ck gen d1 = Inl (e, dd, held)"
          by (cases a) auto
        have h: "vocabularyOrNull held" using v1 a by (rule attempt_thrown_vocabularyOrNull)
        obtain d4 r4 where f: "updateStatus dd ''failed'' (message e) (atFailed ck) = (d4, r4)"
          by (cases "updateStatus dd ''failed'' (message e) (atFailed ck)")
        show ?thesis
        proof (cases r4)
          case (Some x)
          with assms True c None u N1 a f h show ?thesis
            by (auto simp: generatePlaylist_def persisted_vocabularyOrNull)
        next
          case N4: None
          with f have "vocabularyOrNull d4" using updateStatus_vocabularyOrNull by blast
          with assms True c None u N1 a f N4 show ?thesis
            by (auto simp: generatePlaylist_def persisted_vocabularyOrNull)
        qed
      qed
    qed
  qed
qed

lemma vocabulary_sizes:
  "length moodVocabulary = 12 \<and> distinct moodVocabulary \<and>
   length genreVocabulary = 14 \<and> distinct genreVocabulary"
  by (simp add: moodVocabulary_def genreVocabulary_def)

text \<open>
  What the schema does keep out: a save that succeeds, and so the request that the store
  holds when the handler ends, whatever the analysis returns, has as moods and genres
  only values of the vocabularies and \<open>null\<close>.
\<close>

lemma stored_vocabulary_or_null:
  "(snd (save d) = None \<longrightarrow> vocabularyOrNull (fst (save d))) \<and>
   (stored (generatePlaylist rt catalog ck uid p gen) = Some d' \<longrightarrow> vocabularyOrNull d')"
proof (intro conjI impI)
  assume "snd (save d) = None"
  then have "save d = (fst (save d), None)" by (metis prod.collapse)
  then show "vocabularyOrNull (fst (save d))" by (rule save_vocabularyOrNull)
next
  assume "stored (generatePlaylist rt catalog ck uid p gen) = Some d'"
  then show "vocabularyOrNull d'" by (rule generatePlaylist_vocabularyOrNull)
qed

lemma vocabulary_value_stored:
  "map_option status (stored sampleOutcome) = Some ''completed'' \<and>
   map_option extractedMoods (stored sampleOutcome) = Some [Some ''happy''] \<and>
   map_option inVocabulary (stored sampleOutcome) = Some True"
  by code_simp

text \<open>
  A response whose mood is a string outside the vocabulary: the save of the extracted
  data is rejected, and so is the save of \<open>updateStatus('failed', ...)\<close> on the same
  document, so the store keeps the request as it was, without the mood.
\<close>

lemma unknown_mood_not_stored:
  "response (generatePlaylist plainRuntime [summerVibes] sampleClock 1 ''chill vibes''
               (Returned ''{\"moods\":[\"groovy\"]}''))
     = Next (ValidationError ''AIRequest validation failed'') \<and>
   map_option extractedMoods
     (stored (generatePlaylist plainRuntime [summerVibes] sampleClock 1 ''chill vibes''
                (Returned ''{\"moods\":[\"groovy\"]}''))) = Some [] \<and>
   map_option status
     (stored (generatePlaylist plainRuntime [summerVibes] sampleClock 1 ''chill vibes''
                (Returned ''{\"moods\":[\"groovy\"]}''))) = Some ''processing''"
  by code_simp

text \<open>
  Claim C6 at the response \<open>{"moods":[null]}\<close>. The analysis returns the moods \<open>[null]\<close>;
  the cast keeps the element \<open>null\<close>, the \<open>enum\<close> validator passes it and the save
  succeeds. The handler answers with tracks, and the request that the store then holds is
  completed and has \<open>null\<close> among its moods, which is no value of the vocabulary.
\<close>

theorem null_mood_stored:
  "analyze plainRuntime (Returned ''{\"moods\":[null]}'') =
     Inr \<lparr>moods = [JNull], genres = [], keywords' = [],
          geminiData = JObject [(''moods'', JArray [JNull])]\<rparr> \<and>
   response nullMoodOutcome =
     Success [summerVibes, midnightJazz] \<and>
   map_option status (stored nullMoodOutcome) = Some ''completed'' \<and>
   map_option extractedMoods (stored nullMoodOutcome) = Some [None] \<and>
   map_option inVocabulary (stored nullMoodOutcome) = Some False"
  by code_simp

section \<open>Track matching\<close>

lemma set_Track_find:
  "set (Track_find rt sc catalog) \<subseteq> {t \<in> set catalog. isActive t = isActive_is sc}"
  by (auto simp: Track_find_def matchesCriteria_def)

lemma Track_find_active:
  "Track_find rt \<lparr>isActive_is = True, or_clauses = None\<rparr> catalog = filter isActive catalog"
proof -
  have "matchesCriteria rt \<lparr>isActive_is = True, or_clauses = None\<rparr> = isActive"
    by (intro ext) (simp add: matchesCriteria_def)
  then show ?thesis by (simp add: Track_find_def)
qed

lemma byPopularity_sorted: "sorted_wrt (\<lambda>a b. popularity b \<le> popularity a) (byPopularity ts)"
proof -
  have "sorted (map (\<lambda>t. - popularity t) (byPopularity ts))"
    unfolding byPopularity_def by (rule sorted_sort_key)
  then show ?thesis by (simp add: sorted_map)
qed

lemma byPopularity_mset: "mset (byPopularity ts) = mset ts"
  by (simp add: byPopularity_def)

lemma byPopularityPlayCount_sorted: "sorted_wrt popularityRule (byPopularityPlayCount ts)"
proof -
  have "sorted (map (\<lambda>t. (- popularity t, - playCount t)) (byPopularityPlayCount ts))"
    unfolding byPopularityPlayCount_def by (rule sorted_sort_key)
  then have "sorted_wrt (\<lambda>a b. (- popularity a, - playCount a) \<le> (- popularity b, - playCount b))
     (byPopularityPlayCount ts)" by (simp add: sorted_map)
  then show ?thesis
    by (rule sorted_wrt_mono_rel [rotated]) (auto simp: popularityRule_def less_eq_prod_def)
qed

lemma set_primaryTracks:
  "set (primaryTracks rt sc catalog) \<subseteq> {t \<in> set catalog. isActive t = isActive_is sc}"
proof -
  have "set (primaryTracks rt sc catalog) \<subseteq> set (byPopularityPlayCount (Track_find rt sc catalog))"
    unfolding primaryTracks_def by (rule set_take_subset)
  also have "\<dots> = set (Track_find rt sc catalog)"
    by (simp add: byPopularityPlayCount_def)
  finally show ?thesis using set_Track_find by blast
qed

lemma primaryTracks_sorted: "sorted_wrt popularityRule (primaryTracks rt sc catalog)"
  unfolding primaryTracks_def by (intro sorted_wrt_take byPopularityPlayCount_sorted)

lemma fallbackTracks_eq:
  "fallbackTracks rt catalog n = take (20 - n) (byPopularity (filter isActive catalog))"
  by (simp add: fallbackTracks_def Track_find_active)

lemma set_fallbackTracks: "set (fallbackTracks rt catalog n) \<subseteq> {t \<in> set catalog. isActive t}"
proof -
  have "set (fallbackTracks rt catalog n) \<subseteq> set (byPopularity (filter isActive catalog))"
    unfolding fallbackTracks_eq by (rule set_take_subset)
  also have "\<dots> = set (filter isActive catalog)" by (simp add: byPopularity_def)
  finally show ?thesis by auto
qed

lemma set_candidatePool:
  assumes "isActive_is sc"
  shows "set (candidatePool rt sc catalog) \<subseteq> {t \<in> set catalog. isActive t}"
  using set_primaryTracks [of rt sc catalog] set_fallbackTracks [of rt catalog] assms
  by (auto simp: candidatePool_def Let_def)

lemma candidatePool_supplemented:
  assumes "length (primaryTracks rt sc catalog) < 10"
  shows "candidatePool rt sc catalog =
           primaryTracks rt sc catalog @
           take (20 - length (primaryTracks rt sc catalog)) (byPopularity (filter isActive catalog))"
    and "length (candidatePool rt sc catalog) =
           min 20 (length (primaryTracks rt sc catalog) + length (filter isActive catalog))"
proof -
  show 1: "candidatePool rt sc catalog =
           primaryTracks rt sc catalog @
           take (20 - length (primaryTracks rt sc catalog)) (byPopularity (filter isActive catalog))"
    using assms by (simp add: candidatePool_def Let_def fallbackTracks_eq)
  have "length (byPopularity (filter isActive catalog)) = length (filter isActive catalog)"
    by (simp add: byPopularity_def)
  then show "length (candidatePool rt sc catalog) =
           min 20 (length (primaryTracks rt sc catalog) + length (filter isActive catalog))"
    unfolding 1 using assms by simp
qed

lemma buildSearchCriteria_active: "buildSearchCriteria rt ex = Inr sc \<Longrightarrow> isActive_is sc"
  by (auto simp: buildSearchCriteria_def finishCriteria_def Let_def split: if_splits sum.splits)

lemma keywordRegex_error: "keywordRegex rt ks = Inl e \<Longrightarrow> \<exists>m. e = SyntaxError m"
  by (induction ks) (auto split: sum.splits)

lemma buildSearchCriteria_error: "buildSearchCriteria rt ex = Inl e \<Longrightarrow> \<exists>m. e = SyntaxError m"
  by (auto simp: buildSearchCriteria_def Let_def split: if_splits sum.splits
      dest: keywordRegex_error)

lemma buildSearchCriteria_empty:
  assumes "moods ex = []" and "genres ex = []" and "keywords' ex = []"
  shows "buildSearchCriteria rt ex = Inr \<lparr>isActive_is = True, or_clauses = None\<rparr>"
  using assms by (simp add: buildSearchCriteria_def finishCriteria_def)

lemma permuting_set: "permuting f \<Longrightarrow> set (f xs) = set xs"
  unfolding permuting_def by (metis set_mset_mset)

lemma matched_tracks_real:
  assumes "permuting (random_sort rt)" and "matchTracks rt catalog ex = Inr ts"
  shows "length ts \<le> 20" and "\<forall>t\<in>set ts. t \<in> set catalog \<and> isActive t"
proof -
  from assms(2) obtain sc where b: "buildSearchCriteria rt ex = Inr sc"
    and ts: "ts = take 20 (random_sort rt (candidatePool rt sc catalog))"
    by (auto simp: matchTracks_def split: sum.splits)
  show "length ts \<le> 20" by (simp add: ts)
  have "set ts \<subseteq> set (random_sort rt (candidatePool rt sc catalog))"
    unfolding ts by (rule set_take_subset)
  also have "\<dots> = set (candidatePool rt sc catalog)"
    using assms(1) by (rule permuting_set)
  also have "\<dots> \<subseteq> {t \<in> set catalog. isActive t}"
    using buildSearchCriteria_active [OF b] by (rule set_candidatePool)
  finally show "\<forall>t\<in>set ts. t \<in> set catalog \<and> isActive t" by auto
qed

text \<open>
  Claim C8. Whatever the catalogue and the criteria, and whatever order the random sort
  leaves: the tracks that the matching returns are at most 20 and each is an active track
  of the catalogue (the matching returns none only when a keyword is not a regular
  expression, which is a \<open>SyntaxError\<close>). When the primary search gives fewer than 10
  tracks, the pool is these tracks followed by the first \<open>20 - n\<close> active tracks in order of
  descending popularity, the tracks of the primary search not left out; it then has 20
  tracks, or fewer when the catalogue has not that many active ones.
\<close>

theorem match_bounded_and_real:
  assumes "permuting (random_sort rt)"
  shows "(matchTracks rt catalog ex = Inr ts \<longrightarrow>
            length ts \<le> 20 \<and> (\<forall>t\<in>set ts. t \<in> set catalog \<and> isActive t)) \<and>
         (matchTracks rt catalog ex' = Inl e \<longrightarrow> (\<exists>m. e = SyntaxError m)) \<and>
         (length (primaryTracks rt sc catalog) < 10 \<longrightarrow>
            candidatePool rt sc catalog =
              primaryTracks rt sc catalog @
              take (20 - length (primaryTracks rt sc catalog))
                (byPopularity (filter isActive catalog)) \<and>
            length (candidatePool rt sc catalog) =
              min 20 (length (primaryTracks rt sc catalog) + length (filter isActive catalog))) \<and>
         sorted_wrt (\<lambda>a b. popularity b \<le> popularity a) (byPopularity (filter isActive catalog)) \<and>
         mset (byPopularity (filter isActive catalog)) = mset (filter isActive catalog)"
proof (intro conjI impI)
  assume m: "matchTracks rt catalog ex = Inr ts"
  show "length ts \<le> 20" using assms m by (rule matched_tracks_real)
  show "\<forall>t\<in>set ts. t \<in> set catalog \<and> isActive t" using assms m by (rule matched_tracks_real)
next
  assume "matchTracks rt catalog ex' = Inl e"
  then have "buildSearchCriteria rt ex' = Inl e"
    by (auto simp: matchTracks_def split: sum.splits)
  then show "\<exists>m. e = SyntaxError m" by (rule buildSearchCriteria_error)
next
  assume l: "length (primaryTracks rt sc catalog) < 10"
  show "candidatePool rt sc catalog =
              primaryTracks rt sc catalog @
              take (20 - length (primaryTracks rt sc catalog))
                (byPopularity (filter isActive catalog))"
    using l by (rule candidatePool_supplemented)
  show "length (candidatePool rt sc catalog) =
              min 20 (length (primaryTracks rt sc catalog) + length (filter isActive catalog))"
    using l by (rule candidatePool_supplemented)
next
  show "sorted_wrt (\<lambda>a b. popularity b \<le> popularity a) (byPopularity (filter isActive catalog))"
    by (rule byPopularity_sorted)
  show "mset (byPopularity (filter isActive catalog)) = mset (filter isActive catalog)"
    by (rule byPopularity_mset)
qed

theorem match_bounded_and_real_witness:
  "permuting (random_sort plainRuntime) \<and>
   matchTracks plainRuntime [summerVibes, midnightJazz] happyCriteria
     = Inr [summerVibes, summerVibes, midnightJazz] \<and>
   length [summerVibes, summerVibes, midnightJazz] \<le> 20 \<and>
   list_all (\<lambda>t. t \<in> set [summerVibes, midnightJazz] \<and> isActive t)
     [summerVibes, summerVibes, midnightJazz] \<and>
   matchTracks plainRuntime [summerVibes, midnightJazz] brokenCriteria
     = Inl (SyntaxError ''Invalid regular expression'') \<and>
   length (primaryTracks plainRuntime
             \<lparr>isActive_is = True, or_clauses = Some [MoodIn [JString ''happy'']]\<rparr>
             [summerVibes, midnightJazz]) < 10 \<and>
   candidatePool plainRuntime
       \<lparr>isActive_is = True, or_clauses = Some [MoodIn [JString ''happy'']]\<rparr>
       [summerVibes, midnightJazz]
     = [summerVibes, summerVibes, midnightJazz] \<and>
   length (candidatePool plainRuntime
             \<lparr>isActive_is = True, or_clauses = Some [MoodIn [JString ''happy'']]\<rparr>
             [summerVibes, midnightJazz])
     = min 20 (length (primaryTracks plainRuntime
                         \<lparr>isActive_is = True, or_clauses = Some [MoodIn [JString ''happy'']]\<rparr>
                         [summerVibes, midnightJazz])
               + length (filter isActive [summerVibes, midnightJazz]))"
proof -
  let ?sc = "\<lparr>isActive_is = True, or_clauses = Some [MoodIn [JString ''happy'']]\<rparr>"
  let ?cat = "[summerVibes, midnightJazz]"
  have h1: "permuting (random_sort plainRuntime)"
    by (simp add: permuting_def plainRuntime_def)
  have h2: "matchTracks plainRuntime ?cat happyCriteria
              = Inr [summerVibes, summerVibes, midnightJazz]" by code_simp
  have h3: "matchTracks plainRuntime ?cat brokenCriteria
              = Inl (SyntaxError ''Invalid regular expression'')" by code_simp
  have h4: "length (primaryTracks plainRuntime ?sc ?cat) < 10" by code_simp
  have v: "candidatePool plainRuntime ?sc ?cat = [summerVibes, summerVibes, midnightJazz]"
    by code_simp
  show ?thesis
    using match_bounded_and_real [OF h1, where catalog = ?cat and ex = happyCriteria
        and ts = "[summerVibes, summerVibes, midnightJazz]" and ex' = brokenCriteria
        and e = "SyntaxError ''Invalid regular expression''" and sc = ?sc]
      h1 h2 h3 h4 v
    unfolding list_all_iff by blast
qed

text \<open>
  Claim C7, as the code has it. When the moods, the genres and the keywords are all
  empty, the search has no \<open>$or\<close>: it asks for the active tracks only, and its first 50
  tracks by the popularity rule (descending popularity, then descending play count) are
  the primary tracks. The matching does not fail, and it returns the first 20 tracks of
  the pool in the order in which the random sort leaves it, not in the order of the
  popularity rule: at most 20 tracks, each an active track of the catalogue.
\<close>

theorem empty_criteria_match:
  assumes "moods ex = []" and "genres ex = []" and "keywords' ex = []"
  shows "buildSearchCriteria rt ex = Inr \<lparr>isActive_is = True, or_clauses = None\<rparr> \<and>
         primaryTracks rt \<lparr>isActive_is = True, or_clauses = None\<rparr> catalog =
           take 50 (byPopularityPlayCount (filter isActive catalog)) \<and>
         sorted_wrt popularityRule
           (primaryTracks rt \<lparr>isActive_is = True, or_clauses = None\<rparr> catalog) \<and>
         matchTracks rt catalog ex =
           Inr (take 20 (random_sort rt
                  (candidatePool rt \<lparr>isActive_is = True, or_clauses = None\<rparr> catalog))) \<and>
         (\<exists>ts. matchTracks rt catalog ex = Inr ts \<and> length ts \<le> 20 \<and>
               (permuting (random_sort rt) \<longrightarrow> (\<forall>t\<in>set ts. t \<in> set catalog \<and> isActive t)))"
proof -
  let ?sc = "\<lparr>isActive_is = True, or_clauses = None\<rparr>"
  let ?ts = "take 20 (random_sort rt (candidatePool rt ?sc catalog))"
  have b: "buildSearchCriteria rt ex = Inr ?sc" using assms by (rule buildSearchCriteria_empty)
  have p: "primaryTracks rt ?sc catalog = take 50 (byPopularityPlayCount (filter isActive catalog))"
    by (simp add: primaryTracks_def Track_find_active)
  have m: "matchTracks rt catalog ex = Inr ?ts"
    by (simp add: matchTracks_def b)
  have "permuting (random_sort rt) \<longrightarrow> (\<forall>t\<in>set ?ts. t \<in> set catalog \<and> isActive t)"
    using matched_tracks_real(2) [OF _ m] by blast
  then have e: "\<exists>ts. matchTracks rt catalog ex = Inr ts \<and> length ts \<le> 20 \<and>
               (permuting (random_sort rt) \<longrightarrow> (\<forall>t\<in>set ts. t \<in> set catalog \<and> isActive t))"
    using m by simp
  show ?thesis
    using b p primaryTracks_sorted [of rt ?sc catalog] m e by (intro conjI)
qed

theorem empty_criteria_match_witness:
  "moods noCriteria = [] \<and> genres noCriteria = [] \<and> keywords' noCriteria = [] \<and>
   permuting (random_sort plainRuntime) \<and>
   buildSearchCriteria plainRuntime noCriteria = Inr \<lparr>isActive_is = True, or_clauses = None\<rparr> \<and>
   primaryTracks plainRuntime \<lparr>isActive_is = True, or_clauses = None\<rparr> [midnightJazz, summerVibes]
     = [summerVibes, midnightJazz] \<and>
   sorted_wrt popularityRule
     (primaryTracks plainRuntime \<lparr>isActive_is = True, or_clauses = None\<rparr>
        [midnightJazz, summerVibes]) \<and>
   (\<exists>ts. matchTracks plainRuntime [midnightJazz, summerVibes] noCriteria = Inr ts \<and>
         length ts \<le> 20 \<and>
         list_all (\<lambda>t. t \<in> set [midnightJazz, summerVibes] \<and> isActive t) ts)"
proof -
  have h1: "moods noCriteria = []" and h2: "genres noCriteria = []"
    and h3: "keywords' noCriteria = []"
    by (simp_all add: noCriteria_def)
  have h4: "permuting (random_sort plainRuntime)"
    by (simp add: permuting_def plainRuntime_def)
  have v: "primaryTracks plainRuntime \<lparr>isActive_is = True, or_clauses = None\<rparr>
             [midnightJazz, summerVibes] = [summerVibes, midnightJazz]"
    by code_simp
  show ?thesis
    using empty_criteria_match [OF h1 h2 h3, where rt = plainRuntime
        and catalog = "[midnightJazz, summerVibes]"] h1 h2 h3 h4 v
    unfolding list_all_iff by blast
qed

text \<open>
  Over a catalogue of two active tracks and with empty criteria, the matching returns
  each track twice, and not in the order of the popularity rule.
\<close>

theorem returned_order_not_popularity:
  "matchTracks plainRuntime [summerVibes, midnightJazz] noCriteria =
     Inr [summerVibes, midnightJazz, summerVibes, midnightJazz] \<and>
   \<not> sorted_wrt popularityRule [summerVibes, midnightJazz, summerVibes, midnightJazz]"
  by code_simp

text \<open>
  Over a catalogue of 30 active tracks and with empty criteria, a random sort that
  reverses the order makes the matching return the 20 least popular tracks: the ten most
  popular tracks are not among the tracks returned.
\<close>

lemma most_popular_left_out:
  "matchTracks reversingRuntime (map numbered [0..<30]) noCriteria
     = Inr (map numbered [0..<20])"
  by code_simp

end
